theory Spec2Isabelle
  imports Main "HOL-Library.Word"
begin

unbundle bit_operations_syntax

section \<open>Grid store (GridSystem)\<close>

text \<open>
  A cell value is \<open>null\<close> or a string (\<open>'orange'\<close>, \<open>'moon'\<close>, or whatever string a
  caller passes to \<open>setCell\<close>): \<open>None\<close> is \<open>null\<close>. The \<open>constraints: {}\<close> field of a
  cell is never read or written by the program and is left out.
\<close>

type_synonym cell_value = "string option"

record cell =
  val :: cell_value
  immutable :: bool

datatype constraint_type = Equal | NotEqual

text \<open>Coordinates handed in by a caller are JavaScript numbers; integers here.\<close>

type_synonym pos = "int \<times> int"

record constraint =
  cell1 :: pos
  cell2 :: pos
  ctype :: constraint_type

text \<open>
  The constraint store is a JavaScript \<open>Map\<close> keyed by the string
  \<open>`${row1},${col1}-${row2},${col2}`\<close>: an association list in insertion order.
\<close>

record grid_system =
  gsize :: nat
  grid :: "cell list list"
  constraints :: "(string \<times> constraint) list"

definition empty_cell :: cell where
  "empty_cell = \<lparr>val = None, immutable = False\<rparr>"

definition initializeGrid :: "nat \<Rightarrow> cell list list" where
  "initializeGrid n = map (\<lambda>r. map (\<lambda>c. empty_cell) [0..<n]) [0..<n]"

definition newGridSystem :: "nat \<Rightarrow> grid_system" where
  "newGridSystem n = \<lparr>gsize = n, grid = initializeGrid n, constraints = []\<rparr>"

definition isValidPosition :: "grid_system \<Rightarrow> int \<Rightarrow> int \<Rightarrow> bool" where
  "isValidPosition gs r c \<longleftrightarrow> r \<ge> 0 \<and> r < int (gsize gs) \<and> c \<ge> 0 \<and> c < int (gsize gs)"

text \<open>\<open>this.grid[row][col]\<close> for a position that passed \<open>isValidPosition\<close>.\<close>

definition cell_at :: "cell list list \<Rightarrow> int \<Rightarrow> int \<Rightarrow> cell" where
  "cell_at g r c = g ! nat r ! nat c"

definition put_cell :: "cell list list \<Rightarrow> int \<Rightarrow> int \<Rightarrow> cell \<Rightarrow> cell list list" where
  "put_cell g r c x = g[nat r := (g ! nat r)[nat c := x]]"

definition setCell :: "grid_system \<Rightarrow> int \<Rightarrow> int \<Rightarrow> cell_value \<Rightarrow> grid_system \<times> bool" where
  "setCell gs r c v =
     (if isValidPosition gs r c \<and> \<not> immutable (cell_at (grid gs) r c)
      then (gs\<lparr>grid := put_cell (grid gs) r c ((cell_at (grid gs) r c)\<lparr>val := v\<rparr>)\<rparr>, True)
      else (gs, False))"

definition getCell :: "grid_system \<Rightarrow> int \<Rightarrow> int \<Rightarrow> cell option" where
  "getCell gs r c = (if isValidPosition gs r c then Some (cell_at (grid gs) r c) else None)"

definition setImmutable :: "grid_system \<Rightarrow> int \<Rightarrow> int \<Rightarrow> cell_value \<Rightarrow> grid_system \<times> bool" where
  "setImmutable gs r c v =
     (if isValidPosition gs r c
      then (gs\<lparr>grid := put_cell (grid gs) r c ((cell_at (grid gs) r c)\<lparr>val := v, immutable := True\<rparr>)\<rparr>, True)
      else (gs, False))"

text \<open>Decimal rendering of a non-negative integer, as a template literal prints it.\<close>

definition digit_char :: "nat \<Rightarrow> char" where
  "digit_char d = char_of (48 + d)"

function show_nat :: "nat \<Rightarrow> string" where
  "show_nat n = (if n < 10 then [digit_char n] else show_nat (n div 10) @ [digit_char (n mod 10)])"
  by pat_completeness auto
termination
  by (relation "measure id") auto

declare show_nat.simps [simp del]

text \<open>The key is built only for positions that passed \<open>isValidPosition\<close>, so no sign is printed.\<close>

definition constraintId :: "int \<Rightarrow> int \<Rightarrow> int \<Rightarrow> int \<Rightarrow> string" where
  "constraintId r1 c1 r2 c2 =
     show_nat (nat r1) @ '','' @ show_nat (nat c1) @ ''-'' @ show_nat (nat r2) @ '','' @ show_nat (nat c2)"

text \<open>\<open>Map.prototype.set\<close>: an existing key keeps its place, a new key goes last.\<close>

fun map_set :: "'k \<Rightarrow> 'v \<Rightarrow> ('k \<times> 'v) list \<Rightarrow> ('k \<times> 'v) list" where
  "map_set k v [] = [(k, v)]"
| "map_set k v (p # ps) = (if fst p = k then (k, v) # ps else p # map_set k v ps)"

definition addConstraint ::
  "grid_system \<Rightarrow> int \<Rightarrow> int \<Rightarrow> int \<Rightarrow> int \<Rightarrow> constraint_type \<Rightarrow> grid_system \<times> bool" where
  "addConstraint gs r1 c1 r2 c2 t =
     (if isValidPosition gs r1 c1 \<and> isValidPosition gs r2 c2
      then (gs\<lparr>constraints :=
                 map_set (constraintId r1 c1 r2 c2)
                   \<lparr>cell1 = (r1, c1), cell2 = (r2, c2), ctype = t\<rparr> (constraints gs)\<rparr>, True)
      else (gs, False))"

definition getConstraints :: "grid_system \<Rightarrow> constraint list" where
  "getConstraints gs = map snd (constraints gs)"

definition clear :: "grid_system \<Rightarrow> grid_system" where
  "clear gs =
     gs\<lparr>grid := map (\<lambda>r. map (\<lambda>c. if \<not> immutable c then c\<lparr>val := None\<rparr> else c) r) (grid gs)\<rparr>"

text \<open>
  The constructor builds a square grid of \<open>size\<close> rows of \<open>size\<close> cells, and no operation
  of the store changes that shape; \<open>clear\<close> above visits every cell of such a grid.
\<close>

definition wf_grid :: "grid_system \<Rightarrow> bool" where
  "wf_grid gs \<longleftrightarrow> length (grid gs) = gsize gs \<and> list_all (\<lambda>r. length r = gsize gs) (grid gs)"

section \<open>Rule validator (RuleValidator)\<close>

subsection \<open>Adjacency\<close>

datatype adjacent_error =
  AdjacentHorizontal (aerow: nat) (startCol: nat) (endCol: nat) (aevalue: cell_value)
| AdjacentVertical (aecol: nat) (startRow: nat) (endRow: nat) (aevalue: cell_value)

text \<open>
  The inner loop of \<open>validateAdjacentLimits\<close> over the remaining indices of one line:
  \<open>cnt\<close> is \<open>consecutiveCount\<close>, \<open>cur\<close> is \<open>currentValue\<close>, \<open>get i\<close> reads the line's
  \<open>i\<close>-th value, and the result lists the index and run value of every \<open>errors.push\<close>.
\<close>

fun scan_line :: "(nat \<Rightarrow> cell_value) \<Rightarrow> nat list \<Rightarrow> nat \<Rightarrow> cell_value \<Rightarrow> (nat \<times> cell_value) list" where
  "scan_line get [] cnt cur = []"
| "scan_line get (i # rest) cnt cur =
     (if get i = cur \<and> cur \<noteq> None
      then (if cnt + 1 > 2 then [(i, cur)] else []) @ scan_line get rest (cnt + 1) cur
      else scan_line get rest 1 (get i))"

definition row_val :: "grid_system \<Rightarrow> nat \<Rightarrow> nat \<Rightarrow> cell_value" where
  "row_val gs r c = val (grid gs ! r ! c)"

definition horizontal_errors :: "grid_system \<Rightarrow> nat \<Rightarrow> adjacent_error list" where
  "horizontal_errors gs r =
     map (\<lambda>(c, v). AdjacentHorizontal r (c - 2) c v)
       (scan_line (\<lambda>c. row_val gs r c) [1..<gsize gs] 1 (row_val gs r 0))"

definition vertical_errors :: "grid_system \<Rightarrow> nat \<Rightarrow> adjacent_error list" where
  "vertical_errors gs c =
     map (\<lambda>(r, v). AdjacentVertical c (r - 2) r v)
       (scan_line (\<lambda>r. row_val gs r c) [1..<gsize gs] 1 (row_val gs 0 c))"

definition validateAdjacentLimits :: "grid_system \<Rightarrow> adjacent_error list" where
  "validateAdjacentLimits gs =
     concat (map (horizontal_errors gs) [0..<gsize gs])
     @ concat (map (vertical_errors gs) [0..<gsize gs])"

subsection \<open>Balance\<close>

datatype balance_direction = Row | Column

text \<open>
  The record pushed by \<open>validateBalance\<close>: direction, index, \<open>orangeCount\<close> and
  \<open>moonCount\<close> (\<open>exceeded\<close> is the constant \<open>true\<close>). The counter \<open>totalFilled\<close> is written
  but never read and is left out.
\<close>

datatype balance_error =
  BalanceError (direction: balance_direction) (index: nat) (orangeCount: nat) (moonCount: nat)

definition count_step :: "cell_value \<Rightarrow> nat \<times> nat \<Rightarrow> nat \<times> nat" where
  "count_step v acc =
     (if v = Some ''orange'' then (fst acc + 1, snd acc)
      else if v = Some ''moon'' then (fst acc, snd acc + 1)
      else acc)"

definition count_line :: "cell_value list \<Rightarrow> nat \<times> nat" where
  "count_line vs = fold count_step vs (0, 0)"

text \<open>\<open>Math.ceil(size / 2)\<close>: the division is exact in floating point.\<close>

definition maxAllowed :: "nat \<Rightarrow> nat" where
  "maxAllowed n = (n + 1) div 2"

definition row_values :: "grid_system \<Rightarrow> nat \<Rightarrow> cell_value list" where
  "row_values gs r = map (\<lambda>c. row_val gs r c) [0..<gsize gs]"

definition column_values :: "grid_system \<Rightarrow> nat \<Rightarrow> cell_value list" where
  "column_values gs c = map (\<lambda>r. row_val gs r c) [0..<gsize gs]"

definition line_balance :: "balance_direction \<Rightarrow> nat \<Rightarrow> nat \<Rightarrow> cell_value list \<Rightarrow> balance_error list" where
  "line_balance d n i vs =
     (let oc = fst (count_line vs); mc = snd (count_line vs)
      in if oc > maxAllowed n \<or> mc > maxAllowed n then [BalanceError d i oc mc] else [])"

definition row_balance_errors :: "grid_system \<Rightarrow> nat \<Rightarrow> balance_error list" where
  "row_balance_errors gs r = line_balance Row (gsize gs) r (row_values gs r)"

definition column_balance_errors :: "grid_system \<Rightarrow> nat \<Rightarrow> balance_error list" where
  "column_balance_errors gs c = line_balance Column (gsize gs) c (column_values gs c)"

definition validateBalance :: "grid_system \<Rightarrow> balance_error list" where
  "validateBalance gs =
     concat (map (row_balance_errors gs) [0..<gsize gs])
     @ concat (map (column_balance_errors gs) [0..<gsize gs])"

subsection \<open>Pairwise constraints\<close>

datatype constraint_error =
  ConstraintError (constraintType: constraint_type) (cecell1: pos) (cecell2: pos)
    (value1: cell_value) (value2: cell_value)

definition check_constraint :: "cell list list \<Rightarrow> constraint \<Rightarrow> constraint_error list" where
  "check_constraint g k =
     (let v1 = val (cell_at g (fst (cell1 k)) (snd (cell1 k)));
          v2 = val (cell_at g (fst (cell2 k)) (snd (cell2 k)))
      in if v1 \<noteq> None \<and> v2 \<noteq> None
         then (if ctype k = Equal \<and> v1 \<noteq> v2
               then [ConstraintError Equal (cell1 k) (cell2 k) v1 v2]
               else if ctype k = NotEqual \<and> v1 = v2
               then [ConstraintError NotEqual (cell1 k) (cell2 k) v1 v2]
               else [])
         else [])"

definition validateConstraints :: "grid_system \<Rightarrow> constraint_error list" where
  "validateConstraints gs = concat (map (check_constraint (grid gs)) (getConstraints gs))"

record validation =
  adjacentErrors :: "adjacent_error list"
  balanceErrors :: "balance_error list"
  constraintErrors :: "constraint_error list"

definition validateAll :: "grid_system \<Rightarrow> validation" where
  "validateAll gs =
     \<lparr>adjacentErrors = validateAdjacentLimits gs,
      balanceErrors = validateBalance gs,
      constraintErrors = validateConstraints gs\<rparr>"

definition isValid :: "grid_system \<Rightarrow> bool" where
  "isValid gs \<longleftrightarrow>
     length (adjacentErrors (validateAll gs)) = 0 \<and>
     length (balanceErrors (validateAll gs)) = 0 \<and>
     length (constraintErrors (validateAll gs)) = 0"

datatype error_kind = AdjacentKind | BalanceKind | ConstraintKind

type_synonym error_cell = "int \<times> int \<times> error_kind"

definition adjacent_cells :: "adjacent_error \<Rightarrow> error_cell list" where
  "adjacent_cells e =
     (case e of
        AdjacentHorizontal r s f v \<Rightarrow> map (\<lambda>c. (int r, int c, AdjacentKind)) [s..<f + 1]
      | AdjacentVertical c s f v \<Rightarrow> map (\<lambda>r. (int r, int c, AdjacentKind)) [s..<f + 1])"

definition balance_cells :: "nat \<Rightarrow> balance_error \<Rightarrow> error_cell list" where
  "balance_cells n e =
     (if direction e = Row
      then map (\<lambda>c. (int (index e), int c, BalanceKind)) [0..<n]
      else map (\<lambda>r. (int r, int (index e), BalanceKind)) [0..<n])"

definition constraint_cells :: "constraint_error \<Rightarrow> error_cell list" where
  "constraint_cells e =
     [(fst (cecell1 e), snd (cecell1 e), ConstraintKind),
      (fst (cecell2 e), snd (cecell2 e), ConstraintKind)]"

definition getErrorCells :: "grid_system \<Rightarrow> error_cell list" where
  "getErrorCells gs =
     concat (map adjacent_cells (adjacentErrors (validateAll gs)))
     @ concat (map (balance_cells (gsize gs)) (balanceErrors (validateAll gs)))
     @ concat (map constraint_cells (constraintErrors (validateAll gs)))"

section \<open>Session controller (GameManager)\<close>

subsection \<open>Floating-point products\<close>

text \<open>
  JavaScript numbers are IEEE doubles; the integers below are kept in \<open>int\<close>, whose
  numerals compute in binary. A non-negative integer is a double exactly when it
  has at most 53 significant bits; any other is rounded to the nearest such number, ties
  to the even mantissa. \<open>excess_bits p\<close> is the number of bits of \<open>p\<close> beyond 53 and
  \<open>round_double p\<close> the double nearest to \<open>p\<close>. Scaling by a power of two is exact, so
  the double product of an integer \<open>a\<close> and a double \<open>m / 2 ^ e\<close> is
  \<open>round_double (a * m) / 2 ^ e\<close>, and \<open>floor_product a m e\<close> is its \<open>Math.floor\<close>.
\<close>

function excess_bits :: "int \<Rightarrow> nat" where
  "excess_bits p = (if p < 2 ^ 53 then 0 else Suc (excess_bits (p div 2)))"
  by pat_completeness auto
termination
  by (relation "measure nat") auto

declare excess_bits.simps [simp del]

definition round_double :: "int \<Rightarrow> int" where
  "round_double p =
     (let k = excess_bits p; q = p div 2 ^ k; r = p mod 2 ^ k
      in (if 2 * r > 2 ^ k \<or> (2 * r = 2 ^ k \<and> odd q) then q + 1 else q) * 2 ^ k)"

definition floor_product :: "int \<Rightarrow> int \<Rightarrow> nat \<Rightarrow> int" where
  "floor_product a m e = round_double (a * m) div 2 ^ e"

subsection \<open>Seeded generator\<close>

text \<open>A JavaScript string is a sequence of UTF-16 code units; \<open>charCodeAt\<close> reads one.\<close>

type_synonym js_string = "int list"

definition code_units :: "string \<Rightarrow> js_string" where
  "code_units s = map of_char s"

text \<open>
  One round of the hash loop: \<open>hash << 5\<close> is a 32-bit signed shift, the subtraction and
  the addition are exact on doubles of this size, and \<open>hash & hash\<close> wraps to a signed
  32-bit integer.
\<close>

definition hash_step :: "int \<Rightarrow> int \<Rightarrow> int" where
  "hash_step h c =
     sint (word_of_int ((sint (push_bit 5 (word_of_int h :: 32 word)) - h) + c) :: 32 word)"

definition seed_hash :: "js_string \<Rightarrow> int" where
  "seed_hash s = fold (\<lambda>c h. hash_step h c) s 0"

text \<open>
  The state of the generator: \<open>Some v\<close> when \<open>seedRandom\<close> returned its closure and
  \<open>this.seedValue\<close> is \<open>v\<close>; \<open>None\<close> when the seed was empty, where \<open>seedRandom\<close>
  returns the number \<open>0\<close> and leaves \<open>this.seedValue\<close> alone, so that calling the
  result raises a TypeError.
\<close>

type_synonym generator = "int option"

definition seedRandom :: "js_string \<Rightarrow> generator" where
  "seedRandom s = (if length s = 0 then None else Some \<bar>seed_hash s\<bar>)"

definition lcg_next :: "int \<Rightarrow> int" where
  "lcg_next v = (round_double (round_double (v * 1664525) + 1013904223)) mod 2 ^ 32"

text \<open>
  One call of \<open>random()\<close>: the new \<open>seedValue\<close>, or \<open>None\<close> for the TypeError. The number
  returned to the caller is \<open>seedValue / 2 ^ 32\<close>, an exact double; the caller's
  \<open>Math.floor(random() * k)\<close> is \<open>random_below v k\<close> and \<open>random() > 0.5\<close> is \<open>above_half v\<close>.
\<close>

definition random :: "generator \<Rightarrow> int option" where
  "random g = (case g of None \<Rightarrow> None | Some v \<Rightarrow> Some (lcg_next v))"

definition random_below :: "int \<Rightarrow> int \<Rightarrow> int" where
  "random_below v k = floor_product k v 32"

definition above_half :: "int \<Rightarrow> bool" where
  "above_half v \<longleftrightarrow> v > 2 ^ 31"

subsection \<open>Session state\<close>

datatype game_state = Ready | Playing | Completed | Paused

record timer_state =
  startTime :: "int option"
  elapsedTime :: int
  isRunning :: bool

record move =
  mrow :: int
  mcol :: int
  previousValue :: cell_value
  newValue :: cell_value
  timestamp :: int

record game_manager =
  gridSystem :: grid_system
  gameState :: game_state
  difficulty :: string
  seed :: js_string
  seedValue :: "int option"
  timer :: timer_state
  moveHistory :: "move list"
  currentMoveIndex :: int
  initialPuzzleState :: "(cell list list \<times> constraint list) option"

subsection \<open>Puzzle generation\<close>

text \<open>
  \<open>Math.floor(size * size * ratio)\<close> with the doubles nearest to 0.4, 0.25 and 0.15, and
  \<open>Math.floor(size * 0.7)\<close> with the double nearest to 0.7.
\<close>

definition prefilledCount :: "string \<Rightarrow> nat \<Rightarrow> nat" where
  "prefilledCount d n =
     nat (if d = ''easy'' then floor_product (round_double (int n * int n)) 7205759403792794 54
          else if d = ''medium'' then floor_product (round_double (int n * int n)) 1 2
          else floor_product (round_double (int n * int n)) 5404319552844595 55)"

definition constraintCount :: "nat \<Rightarrow> nat" where
  "constraintCount n = nat (floor_product (int n) 3152519739159347 52)"

definition all_positions :: "nat \<Rightarrow> (nat \<times> nat) list" where
  "all_positions n = concat (map (\<lambda>r. map (\<lambda>c. (r, c)) [0..<n]) [0..<n])"

text \<open>
  The shuffle loop at index \<open>i\<close>, running down to 1. It starts at \<open>positions.length - 1\<close>;
  for an empty list that is \<open>-1\<close> in the source and \<open>0\<close> here, and neither runs the body.
\<close>

fun shuffle_loop :: "nat \<Rightarrow> generator \<Rightarrow> (nat \<times> nat) list \<Rightarrow> (generator \<times> (nat \<times> nat) list) option" where
  "shuffle_loop 0 g ps = Some (g, ps)"
| "shuffle_loop (Suc i) g ps =
     (case random g of
        None \<Rightarrow> None
      | Some v \<Rightarrow>
          (let j = nat (random_below v (int (Suc i) + 1))
           in shuffle_loop i (Some v) (ps[Suc i := ps ! j, j := ps ! Suc i])))"

definition symbol_of :: "int \<Rightarrow> cell_value" where
  "symbol_of v = (if above_half v then Some ''orange'' else Some ''moon'')"

fun place_immutable :: "(nat \<times> nat) list \<Rightarrow> generator \<Rightarrow> grid_system \<Rightarrow> (generator \<times> grid_system) option" where
  "place_immutable [] g gs = Some (g, gs)"
| "place_immutable (p # ps) g gs =
     (case random g of
        None \<Rightarrow> None
      | Some v \<Rightarrow>
          place_immutable ps (Some v)
            (fst (setImmutable gs (int (fst p)) (int (snd p)) (symbol_of v))))"

text \<open>
  One round of the constraint loop, after its four draws \<open>v1\<close> to \<open>v4\<close>.
\<close>

definition constraint_round :: "grid_system \<Rightarrow> int \<Rightarrow> int \<Rightarrow> int \<Rightarrow> int \<Rightarrow> grid_system" where
  "constraint_round gs v1 v2 v3 v4 =
     (let r = random_below v1 (int (gsize gs));
          c = random_below v2 (int (gsize gs) - 1);
          t = (if above_half v3 then Equal else NotEqual)
      in if above_half v4
         then fst (addConstraint gs r c r (c + 1) t)
         else if r < int (gsize gs) - 1
         then fst (addConstraint gs r c (r + 1) c t)
         else gs)"

fun add_constraints :: "nat \<Rightarrow> generator \<Rightarrow> grid_system \<Rightarrow> (generator \<times> grid_system) option" where
  "add_constraints 0 g gs = Some (g, gs)"
| "add_constraints (Suc k) g gs =
     (case random g of
        None \<Rightarrow> None
      | Some v1 \<Rightarrow>
     (case random (Some v1) of
        None \<Rightarrow> None
      | Some v2 \<Rightarrow>
     (case random (Some v2) of
        None \<Rightarrow> None
      | Some v3 \<Rightarrow>
     (case random (Some v3) of
        None \<Rightarrow> None
      | Some v4 \<Rightarrow> add_constraints k (Some v4) (constraint_round gs v1 v2 v3 v4)))))"

definition storeInitialPuzzleState :: "game_manager \<Rightarrow> game_manager" where
  "storeInitialPuzzleState gm =
     gm\<lparr>initialPuzzleState := Some (grid (gridSystem gm), getConstraints (gridSystem gm))\<rparr>"

text \<open>\<open>None\<close> is the TypeError of calling a generator that is not a function.\<close>

definition initializePuzzle :: "game_manager \<Rightarrow> game_manager option" where
  "initializePuzzle gm =
     (let g0 = seedRandom (seed gm);
          n = gsize (gridSystem gm);
          positions = all_positions n
      in case shuffle_loop (length positions - 1) g0 positions of
           None \<Rightarrow> None
         | Some (g1, ps) \<Rightarrow>
        (case place_immutable (take (min (prefilledCount (difficulty gm) n) (length ps)) ps) g1
                (gridSystem gm) of
           None \<Rightarrow> None
         | Some (g2, gs2) \<Rightarrow>
        (case add_constraints (constraintCount n) g2 gs2 of
           None \<Rightarrow> None
         | Some (g3, gs3) \<Rightarrow>
             Some (storeInitialPuzzleState
                     (gm\<lparr>gridSystem := gs3,
                         seedValue := (case g3 of None \<Rightarrow> seedValue gm | Some v \<Rightarrow> Some v)\<rparr>)))))"

subsection \<open>Timer and lifecycle\<close>

text \<open>Each operation that reads the clock takes the reading \<open>now\<close> of \<open>Date.now()\<close>.\<close>

definition startTimer :: "game_manager \<Rightarrow> int \<Rightarrow> game_manager" where
  "startTimer gm now =
     (if \<not> isRunning (timer gm)
      then gm\<lparr>timer := (timer gm)\<lparr>startTime := Some (now - elapsedTime (timer gm)), isRunning := True\<rparr>\<rparr>
      else gm)"

definition pauseTimer :: "game_manager \<Rightarrow> int \<Rightarrow> game_manager" where
  "pauseTimer gm now =
     (if isRunning (timer gm)
      then gm\<lparr>timer := (timer gm)\<lparr>elapsedTime := now - (case startTime (timer gm) of None \<Rightarrow> 0 | Some t \<Rightarrow> t),
                                  isRunning := False\<rparr>\<rparr>
      else gm)"

definition resetTimer :: "game_manager \<Rightarrow> game_manager" where
  "resetTimer gm = gm\<lparr>timer := \<lparr>startTime = None, elapsedTime = 0, isRunning = False\<rparr>\<rparr>"

definition startGame :: "game_manager \<Rightarrow> int \<Rightarrow> game_manager \<times> bool" where
  "startGame gm now =
     (if gameState gm = Ready \<or> gameState gm = Paused
      then (startTimer (gm\<lparr>gameState := Playing\<rparr>) now, True)
      else (gm, False))"

definition pauseGame :: "game_manager \<Rightarrow> int \<Rightarrow> game_manager \<times> bool" where
  "pauseGame gm now =
     (if gameState gm = Playing
      then (pauseTimer (gm\<lparr>gameState := Paused\<rparr>) now, True)
      else (gm, False))"

definition clearMoveHistory :: "game_manager \<Rightarrow> game_manager" where
  "clearMoveHistory gm = gm\<lparr>moveHistory := [], currentMoveIndex := - 1\<rparr>"

text \<open>
  \<open>restoreInitialPuzzleState\<close> copies \<open>value\<close> and \<open>immutable\<close> of every snapshot cell into
  the current cell at the same place, over \<open>size\<close> rows and columns, and rebuilds the
  constraint map from the snapshot's list.
\<close>

definition restoreInitialPuzzleState :: "game_manager \<Rightarrow> game_manager option" where
  "restoreInitialPuzzleState gm =
     (case initialPuzzleState gm of
        None \<Rightarrow> initializePuzzle (gm\<lparr>gridSystem := clear (gridSystem gm)\<rparr>)
      | Some (ig, ks) \<Rightarrow>
          Some (gm\<lparr>gridSystem := (gridSystem gm)
                  \<lparr>grid := fold (\<lambda>(r, c) g.
                               put_cell g (int r) (int c)
                                 ((cell_at g (int r) (int c))
                                    \<lparr>val := val (cell_at ig (int r) (int c)),
                                     immutable := immutable (cell_at ig (int r) (int c))\<rparr>))
                             (all_positions (gsize (gridSystem gm))) (grid (gridSystem gm)),
                   constraints := fold (\<lambda>k m.
                               map_set (constraintId (fst (cell1 k)) (snd (cell1 k))
                                          (fst (cell2 k)) (snd (cell2 k))) k m) ks []\<rparr>\<rparr>))"

definition resetGame :: "game_manager \<Rightarrow> game_manager option" where
  "resetGame gm = restoreInitialPuzzleState (clearMoveHistory (resetTimer (gm\<lparr>gameState := Ready\<rparr>)))"

text \<open>
  The constructor and \<open>newGame\<close>. The seed drawn by \<open>generateSeed\<close> from \<open>Math.random\<close>, or
  the trimmed and upper-cased custom seed, is the argument \<open>s\<close>. In \<open>newGame\<close> a size of
  \<open>null\<close> or \<open>0\<close> and a difficulty of \<open>null\<close> or \<open>''\<close> keep the current ones.
\<close>

definition newGameManager :: "nat \<Rightarrow> string \<Rightarrow> js_string \<Rightarrow> game_manager option" where
  "newGameManager n d s =
     initializePuzzle
       \<lparr>gridSystem = newGridSystem n, gameState = Ready, difficulty = d, seed = s,
        seedValue = None,
        timer = \<lparr>startTime = None, elapsedTime = 0, isRunning = False\<rparr>,
        moveHistory = [], currentMoveIndex = - 1, initialPuzzleState = None\<rparr>"

definition newGame :: "game_manager \<Rightarrow> nat option \<Rightarrow> string option \<Rightarrow> js_string \<Rightarrow> game_manager option" where
  "newGame gm n d s =
     initializePuzzle (clearMoveHistory (resetTimer
       (gm\<lparr>gridSystem := newGridSystem
                (case n of None \<Rightarrow> gsize (gridSystem gm)
                 | Some k \<Rightarrow> if k = 0 then gsize (gridSystem gm) else k),
           difficulty := (case d of None \<Rightarrow> difficulty gm
                          | Some x \<Rightarrow> if x = [] then difficulty gm else x),
           seed := s,
           gameState := Ready\<rparr>)))"

subsection \<open>Moves, history and completion\<close>

text \<open>\<open>Array.prototype.slice(0, e)\<close>: a negative end counts from the end of the array.\<close>

definition slice0 :: "'a list \<Rightarrow> int \<Rightarrow> 'a list" where
  "slice0 xs e =
     take (nat (if e < 0 then max (int (length xs) + e) 0 else min e (int (length xs)))) xs"

definition recordMove :: "game_manager \<Rightarrow> int \<Rightarrow> int \<Rightarrow> cell_value \<Rightarrow> cell_value \<Rightarrow> int \<Rightarrow> game_manager" where
  "recordMove gm r c pv nv now =
     gm\<lparr>moveHistory := slice0 (moveHistory gm) (currentMoveIndex gm + 1)
                          @ [\<lparr>mrow = r, mcol = c, previousValue = pv, newValue = nv, timestamp = now\<rparr>],
        currentMoveIndex := currentMoveIndex gm + 1\<rparr>"

definition isGameCompleted :: "game_manager \<Rightarrow> bool" where
  "isGameCompleted gm =
     (if list_ex (\<lambda>r. list_ex (\<lambda>c. row_val (gridSystem gm) r c = None)
                         [0..<gsize (gridSystem gm)])
           [0..<gsize (gridSystem gm)]
      then False
      else isValid (gridSystem gm))"

text \<open>\<open>completeGame\<close>: the summary it returns is discarded by its only caller.\<close>

definition completeGame :: "game_manager \<Rightarrow> int \<Rightarrow> game_manager" where
  "completeGame gm now = pauseTimer (gm\<lparr>gameState := Completed\<rparr>) now"

datatype move_result =
  MoveSuccess game_state bool "error_cell list" validation
| MoveFailure string

text \<open>
  \<open>previousValue\<close> is \<open>getCell(row, col)?.value\<close>; at an invalid position it is
  \<open>undefined\<close> in the source and is never recorded, since \<open>setCell\<close> fails there too.
\<close>

definition makeMove :: "game_manager \<Rightarrow> int \<Rightarrow> int \<Rightarrow> cell_value \<Rightarrow> int \<Rightarrow> game_manager \<times> move_result" where
  "makeMove gm r c v now =
     (if gameState gm \<noteq> Playing \<and> gameState gm \<noteq> Ready
      then (gm, MoveFailure ''Game not active'')
      else
        (let gm1 = (if gameState gm = Ready then fst (startGame gm now) else gm);
             pv = (case getCell (gridSystem gm1) r c of None \<Rightarrow> None | Some x \<Rightarrow> val x);
             res = setCell (gridSystem gm1) r c v
         in if snd res
            then
              (let gm2 = recordMove (gm1\<lparr>gridSystem := fst res\<rparr>) r c pv v now;
                   gm3 = (if isGameCompleted gm2 then completeGame gm2 now else gm2)
               in (gm3, MoveSuccess (gameState gm3) (isValid (gridSystem gm3))
                          (getErrorCells (gridSystem gm3)) (validateAll (gridSystem gm3))))
            else (gm1, MoveFailure ''Invalid move'')))"

datatype history_result =
  HistorySuccess move bool bool
| HistoryFailure string

text \<open>
  \<open>undo\<close> and \<open>redo\<close> read \<open>this.moveHistory[this.currentMoveIndex]\<close>; outside the array
  that is \<open>undefined\<close>, and reading its \<open>row\<close> raises a TypeError: the result \<open>None\<close>.
\<close>

definition undo :: "game_manager \<Rightarrow> (game_manager \<times> history_result) option" where
  "undo gm =
     (if currentMoveIndex gm \<ge> 0
      then
        (if currentMoveIndex gm \<ge> int (length (moveHistory gm)) then None
         else
           (let m = moveHistory gm ! nat (currentMoveIndex gm);
                res = setCell (gridSystem gm) (mrow m) (mcol m) (previousValue m)
            in if snd res
               then
                 (let gm1 = gm\<lparr>gridSystem := fst res, currentMoveIndex := currentMoveIndex gm - 1\<rparr>
                  in Some (gm1, HistorySuccess m (currentMoveIndex gm1 \<ge> 0)
                                  (currentMoveIndex gm1 < int (length (moveHistory gm1)) - 1)))
               else Some (gm\<lparr>gridSystem := fst res\<rparr>, HistoryFailure ''No moves to undo'')))
      else Some (gm, HistoryFailure ''No moves to undo''))"

definition redo :: "game_manager \<Rightarrow> (game_manager \<times> history_result) option" where
  "redo gm =
     (if currentMoveIndex gm < int (length (moveHistory gm)) - 1
      then
        (if currentMoveIndex gm + 1 < 0 then None
         else
           (let gm1 = gm\<lparr>currentMoveIndex := currentMoveIndex gm + 1\<rparr>;
                m = moveHistory gm1 ! nat (currentMoveIndex gm1);
                res = setCell (gridSystem gm1) (mrow m) (mcol m) (newValue m);
                gm2 = gm1\<lparr>gridSystem := fst res\<rparr>
            in if snd res
               then Some (gm2, HistorySuccess m (currentMoveIndex gm2 \<ge> 0)
                                 (currentMoveIndex gm2 < int (length (moveHistory gm2)) - 1))
               else Some (gm2, HistoryFailure ''No moves to redo'')))
      else Some (gm, HistoryFailure ''No moves to redo''))"

section \<open>Notions used in the statements\<close>

text \<open>A sequence of \<open>setCell\<close> calls, each with its own target and value.\<close>

definition setCell_calls :: "grid_system \<Rightarrow> (int \<times> int \<times> cell_value) list \<Rightarrow> grid_system" where
  "setCell_calls gs calls = fold (\<lambda>(r, c, v) g. fst (setCell g r c v)) calls gs"

text \<open>A 2 by 2 store whose cell (0, 0) was prefilled with \<open>'moon'\<close>.\<close>

definition demo_store :: grid_system where
  "demo_store = fst (setImmutable (newGridSystem 2) 0 0 (Some ''moon''))"

text \<open>
  The grid after a successful \<open>setCell\<close>: the cell at \<open>(r, c)\<close> with its value replaced.
\<close>

definition set_val :: "cell list list \<Rightarrow> int \<Rightarrow> int \<Rightarrow> cell_value \<Rightarrow> cell list list" where
  "set_val g r c v = put_cell g r c ((cell_at g r c)\<lparr>val := v\<rparr>)"

text \<open>
  Writing a move's \<open>newValue\<close>, as \<open>redo\<close> does, and its \<open>previousValue\<close>, as \<open>undo\<close> does.
\<close>

definition apply_new :: "cell list list \<Rightarrow> move \<Rightarrow> cell list list" where
  "apply_new g m = set_val g (mrow m) (mcol m) (newValue m)"

definition apply_prev :: "cell list list \<Rightarrow> move \<Rightarrow> cell list list" where
  "apply_prev g m = set_val g (mrow m) (mcol m) (previousValue m)"

text \<open>
  Writing the moves of a list in order, and taking them back from the last to the first.
\<close>

definition replay :: "cell list list \<Rightarrow> move list \<Rightarrow> cell list list" where
  "replay g ms = fold (\<lambda>m h. apply_new h m) ms g"

definition rewind :: "cell list list \<Rightarrow> move list \<Rightarrow> cell list list" where
  "rewind g ms = foldr (\<lambda>m h. apply_prev h m) ms g"

text \<open>
  A history is consistent from a grid when every move records, as its \<open>previousValue\<close>,
  the value its cell holds once the moves before it have been written.
\<close>

fun consistent :: "cell list list \<Rightarrow> move list \<Rightarrow> bool" where
  "consistent g [] = True"
| "consistent g (m # ms) =
     (val (cell_at g (mrow m) (mcol m)) = previousValue m \<and> consistent (apply_new g m) ms)"

text \<open>
  A move that \<open>setCell\<close> accepts: its cell is within bounds and not immutable.
\<close>

definition writable :: "grid_system \<Rightarrow> move \<Rightarrow> bool" where
  "writable gs m \<longleftrightarrow>
     isValidPosition gs (mrow m) (mcol m) \<and> \<not> immutable (cell_at (grid gs) (mrow m) (mcol m))"

text \<open>
  The part of the history up to and including the cursor.
\<close>

definition applied :: "game_manager \<Rightarrow> move list" where
  "applied gm = take (nat (currentMoveIndex gm + 1)) (moveHistory gm)"

text \<open>
  The invariant of a session: the grid is square, the cursor is \<open>-1\<close> or an index of the
  history, every recorded move is on a writable cell, and the grid is what the moves up
  to the cursor make of the grid they started from, the history being consistent from
  that grid. The constructor establishes it and every operation keeps it
  (\<open>reachable_session_inv\<close> below).
\<close>

definition session_inv :: "game_manager \<Rightarrow> bool" where
  "session_inv gm \<longleftrightarrow>
     wf_grid (gridSystem gm)
     \<and> - 1 \<le> currentMoveIndex gm
     \<and> currentMoveIndex gm < int (length (moveHistory gm))
     \<and> list_all (writable (gridSystem gm)) (moveHistory gm)
     \<and> consistent (rewind (grid (gridSystem gm)) (applied gm)) (moveHistory gm)
     \<and> replay (rewind (grid (gridSystem gm)) (applied gm)) (applied gm) = grid (gridSystem gm)"

text \<open>
  The record \<open>this.moveHistory[this.currentMoveIndex]\<close>.
\<close>

definition move_at_cursor :: "game_manager \<Rightarrow> move" where
  "move_at_cursor gm = moveHistory gm ! nat (currentMoveIndex gm)"

text \<open>
  The session after a successful \<open>undo\<close>, and after a successful \<open>redo\<close>.
\<close>

definition after_undo :: "game_manager \<Rightarrow> game_manager" where
  "after_undo gm =
     gm\<lparr>gridSystem := (gridSystem gm)\<lparr>grid := apply_prev (grid (gridSystem gm)) (move_at_cursor gm)\<rparr>,
        currentMoveIndex := currentMoveIndex gm - 1\<rparr>"

definition after_redo :: "game_manager \<Rightarrow> game_manager" where
  "after_redo gm =
     gm\<lparr>gridSystem := (gridSystem gm)\<lparr>grid := apply_new (grid (gridSystem gm))
                                           (moveHistory gm ! nat (currentMoveIndex gm + 1))\<rparr>,
        currentMoveIndex := currentMoveIndex gm + 1\<rparr>"

text \<open>
  The session after the auto-start of \<open>makeMove\<close>.
\<close>

definition started :: "game_manager \<Rightarrow> int \<Rightarrow> game_manager" where
  "started gm now = (if gameState gm = Ready then fst (startGame gm now) else gm)"

text \<open>
  The record of a move on \<open>(r, c)\<close>: \<open>previousValue\<close> is the value the cell holds.
\<close>

definition new_record :: "game_manager \<Rightarrow> int \<Rightarrow> int \<Rightarrow> cell_value \<Rightarrow> int \<Rightarrow> move" where
  "new_record gm r c v now =
     \<lparr>mrow = r, mcol = c, previousValue = val (cell_at (grid (gridSystem gm)) r c),
      newValue = v, timestamp = now\<rparr>"

text \<open>
  The states in which \<open>makeMove\<close> accepts a move.
\<close>

definition active :: "game_manager \<Rightarrow> bool" where
  "active gm \<longleftrightarrow> gameState gm = Playing \<or> gameState gm = Ready"

text \<open>
  No cell of the grid is \<open>null\<close>.
\<close>

definition all_filled :: "grid_system \<Rightarrow> bool" where
  "all_filled gs \<longleftrightarrow>
     list_all (\<lambda>r. list_all (\<lambda>c. val (grid gs ! r ! c) \<noteq> None) [0..<gsize gs]) [0..<gsize gs]"

text \<open>
  The session after a successful write and \<open>recordMove\<close>, before the completion check.
\<close>

definition recorded :: "game_manager \<Rightarrow> int \<Rightarrow> int \<Rightarrow> cell_value \<Rightarrow> int \<Rightarrow> game_manager" where
  "recorded gm r c v now =
     recordMove ((started gm now)\<lparr>gridSystem := fst (setCell (gridSystem gm) r c v)\<rparr>) r c
       (val (cell_at (grid (gridSystem gm)) r c)) v now"

text \<open>
  The result of \<open>undo\<close> or \<open>redo\<close> with the game state set to \<open>s\<close>.
\<close>

definition in_state :: "game_state \<Rightarrow> game_manager \<times> history_result \<Rightarrow> game_manager \<times> history_result" where
  "in_state s p = ((fst p)\<lparr>gameState := s\<rparr>, snd p)"

text \<open>
  The sessions a caller can get to: from the constructor, by the operations of the
  session controller.
\<close>

inductive reachable :: "game_manager \<Rightarrow> bool" where
  constructed: "newGameManager n d s = Some gm \<Longrightarrow> reachable gm"
| moved: "reachable gm \<Longrightarrow> reachable (fst (makeMove gm r c v now))"
| undone: "reachable gm \<Longrightarrow> undo gm = Some (gm', res) \<Longrightarrow> reachable gm'"
| redone: "reachable gm \<Longrightarrow> redo gm = Some (gm', res) \<Longrightarrow> reachable gm'"
| started: "reachable gm \<Longrightarrow> reachable (fst (startGame gm now))"
| paused: "reachable gm \<Longrightarrow> reachable (fst (pauseGame gm now))"
| reset: "reachable gm \<Longrightarrow> resetGame gm = Some gm' \<Longrightarrow> reachable gm'"
| renewed: "reachable gm \<Longrightarrow> newGame gm n d s = Some gm' \<Longrightarrow> reachable gm'"

text \<open>
  The session the constructor builds for size 2, difficulty \<open>medium\<close> and seed
  \<open>TEST1234\<close> (\<open>demo_session_constructed\<close> below): cell (1, 1) is prefilled.
\<close>

definition demo_session :: game_manager where
  "demo_session =
     \<lparr>gridSystem =
        \<lparr>gsize = 2,
         grid = [[\<lparr>val = None, immutable = False\<rparr>, \<lparr>val = None, immutable = False\<rparr>],
                 [\<lparr>val = None, immutable = False\<rparr>, \<lparr>val = Some ''orange'', immutable = True\<rparr>]],
         constraints = [(''1,0-1,1'', \<lparr>cell1 = (1, 0), cell2 = (1, 1), ctype = NotEqual\<rparr>)]\<rparr>,
      gameState = Ready, difficulty = ''medium'', seed = code_units ''TEST1234'',
      seedValue = Some 3018209620,
      timer = \<lparr>startTime = None, elapsedTime = 0, isRunning = False\<rparr>,
      moveHistory = [], currentMoveIndex = - 1,
      initialPuzzleState =
        Some ([[\<lparr>val = None, immutable = False\<rparr>, \<lparr>val = None, immutable = False\<rparr>],
               [\<lparr>val = None, immutable = False\<rparr>, \<lparr>val = Some ''orange'', immutable = True\<rparr>]],
              [\<lparr>cell1 = (1, 0), cell2 = (1, 1), ctype = NotEqual\<rparr>])\<rparr>"

text \<open>
  Four moves, and the sessions they lead to: after \<open>A\<close>; after \<open>A\<close>, \<open>B\<close>, \<open>C\<close>; the latter
  after two undos; after \<open>A\<close> and a pause; and one move away from completion.
\<close>

definition move_A :: move where
  "move_A = \<lparr>mrow = 0, mcol = 0, previousValue = None, newValue = Some ''orange'', timestamp = 1000\<rparr>"

definition move_B :: move where
  "move_B = \<lparr>mrow = 0, mcol = 1, previousValue = None, newValue = Some ''orange'', timestamp = 2000\<rparr>"

definition move_C :: move where
  "move_C = \<lparr>mrow = 1, mcol = 0, previousValue = None, newValue = Some ''orange'', timestamp = 3000\<rparr>"

definition move_D :: move where
  "move_D = \<lparr>mrow = 1, mcol = 0, previousValue = None, newValue = Some ''moon'', timestamp = 4000\<rparr>"

definition after_A :: game_manager where
  "after_A = fst (makeMove demo_session 0 0 (Some ''orange'') 1000)"

definition after_ABC :: game_manager where
  "after_ABC =
     fst (makeMove (fst (makeMove after_A 0 1 (Some ''orange'') 2000)) 1 0 (Some ''orange'') 3000)"

definition rewound :: game_manager where
  "rewound = fst (the (undo (fst (the (undo after_ABC)))))"

definition paused_A :: game_manager where
  "paused_A = fst (pauseGame after_A 1500)"

definition almost_done :: game_manager where
  "almost_done = fst (makeMove after_A 0 1 (Some ''moon'') 2000)"

text \<open>
  The length of the run that ends at position \<open>i\<close> of a line: the number of cells up to
  \<open>i\<close> that hold the same non-empty value as their neighbour; 1 where no run is under way.
\<close>

fun run_length :: "(nat \<Rightarrow> cell_value) \<Rightarrow> nat \<Rightarrow> nat" where
  "run_length get 0 = 1"
| "run_length get (Suc i) =
     (if get (Suc i) = get i \<and> get i \<noteq> None then run_length get i + 1 else 1)"

text \<open>
  The run length exceeds 2 at position \<open>i\<close>.
\<close>

definition over_limit :: "(nat \<Rightarrow> cell_value) \<Rightarrow> nat \<Rightarrow> bool" where
  "over_limit get i \<longleftrightarrow> run_length get i > 2"

text \<open>
  A record for every position of a row, and of a column, where the run length exceeds 2,
  with its window \<open>[i - 2, i]\<close>.
\<close>

definition horizontal_windows :: "grid_system \<Rightarrow> nat \<Rightarrow> adjacent_error list" where
  "horizontal_windows gs r =
     map (\<lambda>c. AdjacentHorizontal r (c - 2) c (row_val gs r c))
       (filter (over_limit (\<lambda>c. row_val gs r c)) [1..<gsize gs])"

definition vertical_windows :: "grid_system \<Rightarrow> nat \<Rightarrow> adjacent_error list" where
  "vertical_windows gs c =
     map (\<lambda>r. AdjacentVertical c (r - 2) r (row_val gs r c))
       (filter (over_limit (\<lambda>r. row_val gs r c)) [1..<gsize gs])"

text \<open>
  The record's window ends at one of the \<open>l\<close> positions from \<open>a\<close> on.
\<close>

definition ends_within :: "nat \<Rightarrow> nat \<Rightarrow> adjacent_error \<Rightarrow> bool" where
  "ends_within a l e \<longleftrightarrow>
     (case e of AdjacentHorizontal r s f v \<Rightarrow> a \<le> f \<and> f < a + l
      | AdjacentVertical c s f v \<Rightarrow> a \<le> f \<and> f < a + l)"

text \<open>
  Among the first \<open>n\<close> cells of a line, the \<open>l\<close> cells from \<open>a\<close> on hold \<open>s\<close>, and the cell
  before them, if there is one, does not.
\<close>

definition is_run :: "(nat \<Rightarrow> cell_value) \<Rightarrow> nat \<Rightarrow> nat \<Rightarrow> nat \<Rightarrow> string \<Rightarrow> bool" where
  "is_run get n a l s \<longleftrightarrow>
     a + l \<le> n \<and> list_all (\<lambda>i. get i = Some s) [a..<a + l]
     \<and> (0 < a \<longrightarrow> get (a - 1) \<noteq> Some s)"

text \<open>
  A 4 by 4 store with four moons along row 0 and three down column 0.
\<close>

definition demo_lines :: grid_system where
  "demo_lines =
     \<lparr>gsize = 4,
      grid = [[\<lparr>val = Some ''moon'', immutable = False\<rparr>, \<lparr>val = Some ''moon'', immutable = False\<rparr>,
               \<lparr>val = Some ''moon'', immutable = False\<rparr>, \<lparr>val = Some ''moon'', immutable = False\<rparr>],
              [\<lparr>val = Some ''moon'', immutable = False\<rparr>, empty_cell, empty_cell, empty_cell],
              [\<lparr>val = Some ''moon'', immutable = False\<rparr>, empty_cell, empty_cell, empty_cell],
              [empty_cell, empty_cell, empty_cell, empty_cell]],
      constraints = []\<rparr>"

text \<open>
  The balance check as the specification words it: each side tested on its own, one
  record per side exceeded.
\<close>

definition line_balance_per_side :: "balance_direction \<Rightarrow> nat \<Rightarrow> nat \<Rightarrow> cell_value list \<Rightarrow> balance_error list" where
  "line_balance_per_side d n i vs =
     (let oc = count_list vs (Some ''orange''); mc = count_list vs (Some ''moon'')
      in (if oc > maxAllowed n then [BalanceError d i oc mc] else [])
         @ (if mc > maxAllowed n then [BalanceError d i oc mc] else []))"

definition validateBalance_per_side :: "grid_system \<Rightarrow> balance_error list" where
  "validateBalance_per_side gs =
     concat (map (\<lambda>r. line_balance_per_side Row (gsize gs) r (row_values gs r)) [0..<gsize gs])
     @ concat (map (\<lambda>c. line_balance_per_side Column (gsize gs) c (column_values gs c)) [0..<gsize gs])"

text \<open>
  The number of symbols whose count in a line exceeds the cap.
\<close>

definition sides_exceeded :: "nat \<Rightarrow> cell_value list \<Rightarrow> nat" where
  "sides_exceeded n vs =
     (if count_list vs (Some ''orange'') > maxAllowed n then 1 else 0)
     + (if count_list vs (Some ''moon'') > maxAllowed n then 1 else 0)"

text \<open>
  A 3 by 3 store with three oranges along row 0 and three down column 0.
\<close>

definition demo_balance :: grid_system where
  "demo_balance =
     \<lparr>gsize = 3,
      grid = [[\<lparr>val = Some ''orange'', immutable = False\<rparr>, \<lparr>val = Some ''orange'', immutable = False\<rparr>,
               \<lparr>val = Some ''orange'', immutable = False\<rparr>],
              [\<lparr>val = Some ''orange'', immutable = False\<rparr>, \<lparr>val = Some ''moon'', immutable = False\<rparr>,
               empty_cell],
              [\<lparr>val = Some ''orange'', immutable = False\<rparr>, empty_cell, empty_cell]],
      constraints = []\<rparr>"

text \<open>
  The recurrence of the specification, on integers.
\<close>

definition lcg_recurrence :: "int \<Rightarrow> int" where
  "lcg_recurrence v = (v * 1664525 + 1013904223) mod 2 ^ 32"

text \<open>
  The number of \<open>random()\<close> calls of one generation: one per shuffle step, one per
  prefilled cell, four per constraint round.
\<close>

definition draws :: "string \<Rightarrow> nat \<Rightarrow> nat" where
  "draws d n = (n * n - 1) + min (prefilledCount d n) (n * n) + 4 * constraintCount n"

text \<open>
  The session built for size 4, difficulty \<open>medium\<close> and seed \<open>TEST1234\<close>, with the
  shuffled positions and the store after the prefilled cells were placed.
\<close>

definition test1234_session :: game_manager where
  "test1234_session =
     \<lparr>gridSystem =
        \<lparr>gsize = 4,
         grid = [[\<lparr>val = Some ''moon'', immutable = True\<rparr>, empty_cell, empty_cell, empty_cell],
                 [\<lparr>val = Some ''moon'', immutable = True\<rparr>, empty_cell, empty_cell, empty_cell],
                 [empty_cell, empty_cell, empty_cell, empty_cell],
                 [empty_cell, \<lparr>val = Some ''moon'', immutable = True\<rparr>, empty_cell,
                  \<lparr>val = Some ''moon'', immutable = True\<rparr>]],
         constraints =
           [(''1,2-2,2'', \<lparr>cell1 = (1, 2), cell2 = (2, 2), ctype = NotEqual\<rparr>),
            (''0,1-0,2'', \<lparr>cell1 = (0, 1), cell2 = (0, 2), ctype = Equal\<rparr>)]\<rparr>,
      gameState = Ready, difficulty = ''medium'', seed = code_units ''TEST1234'',
      seedValue = Some 3360208989,
      timer = \<lparr>startTime = None, elapsedTime = 0, isRunning = False\<rparr>,
      moveHistory = [], currentMoveIndex = - 1,
      initialPuzzleState =
        Some ([[\<lparr>val = Some ''moon'', immutable = True\<rparr>, empty_cell, empty_cell, empty_cell],
               [\<lparr>val = Some ''moon'', immutable = True\<rparr>, empty_cell, empty_cell, empty_cell],
               [empty_cell, empty_cell, empty_cell, empty_cell],
               [empty_cell, \<lparr>val = Some ''moon'', immutable = True\<rparr>, empty_cell,
                \<lparr>val = Some ''moon'', immutable = True\<rparr>]],
              [\<lparr>cell1 = (1, 2), cell2 = (2, 2), ctype = NotEqual\<rparr>,
               \<lparr>cell1 = (0, 1), cell2 = (0, 2), ctype = Equal\<rparr>])\<rparr>"

definition test1234_shuffled :: "(nat \<times> nat) list" where
  "test1234_shuffled =
     [(0, 0), (3, 1), (1, 0), (3, 3), (3, 0), (0, 1), (2, 0), (1, 1), (1, 2),
      (0, 2), (3, 2), (2, 3), (2, 2), (2, 1), (1, 3), (0, 3)]"

definition test1234_placed :: grid_system where
  "test1234_placed = (gridSystem test1234_session)\<lparr>constraints := []\<rparr>"

section \<open>Properties of the grid store\<close>

lemma wf_grid_row: "wf_grid gs \<Longrightarrow> r < gsize gs \<Longrightarrow> length (grid gs ! r) = gsize gs"
  by (simp add: wf_grid_def list_all_length)

lemma cell_at_put_same:
  "nat r < length g \<Longrightarrow> nat c < length (g ! nat r) \<Longrightarrow> cell_at (put_cell g r c x) r c = x"
  by (simp add: cell_at_def put_cell_def)

lemma cell_at_put_other:
  "0 \<le> r \<Longrightarrow> 0 \<le> c \<Longrightarrow> 0 \<le> r' \<Longrightarrow> 0 \<le> c' \<Longrightarrow> (r', c') \<noteq> (r, c) \<Longrightarrow>
   cell_at (put_cell g r c x) r' c' = cell_at g r' c'"
  by (cases "nat r < length g"; cases "nat r' = nat r")
     (auto simp: cell_at_def put_cell_def nth_list_update list_update_beyond)

lemma length_put_cell: "length (put_cell g r c x) = length g"
  by (simp add: put_cell_def)

lemma row_length_put_cell: "length (put_cell g r c x ! i) = length (g ! i)"
  by (cases "nat r < length g"; cases "i = nat r")
     (auto simp: put_cell_def nth_list_update list_update_beyond)

lemma wf_grid_put_cell: "wf_grid gs \<Longrightarrow> wf_grid (gs\<lparr>grid := put_cell (grid gs) r c x\<rparr>)"
  by (simp add: wf_grid_def list_all_length length_put_cell row_length_put_cell)

lemma put_cell_same: "put_cell g r c (cell_at g r c) = g"
  by (simp add: put_cell_def cell_at_def)

lemma setCell_wf: "wf_grid gs \<Longrightarrow> wf_grid (fst (setCell gs r c v))"
  by (simp add: setCell_def wf_grid_put_cell)

lemma setCell_gsize: "gsize (fst (setCell gs r c v)) = gsize gs"
  by (simp add: setCell_def)

lemma setCell_constraints: "constraints (fst (setCell gs r c v)) = constraints gs"
  by (simp add: setCell_def)

lemma setCell_keeps_immutable_cell:
  assumes "wf_grid gs" "isValidPosition gs r c" "immutable (cell_at (grid gs) r c)"
  shows "cell_at (grid (fst (setCell gs r' c' v))) r c = cell_at (grid gs) r c"
proof (cases "snd (setCell gs r' c' v)")
  case False
  then show ?thesis by (auto simp: setCell_def)
next
  case True
  then have ok: "isValidPosition gs r' c'" "\<not> immutable (cell_at (grid gs) r' c')"
    by (auto simp: setCell_def split: if_splits)
  with assms(3) have "(r, c) \<noteq> (r', c')" by auto
  with ok assms(2) show ?thesis
    by (simp add: setCell_def isValidPosition_def cell_at_put_other)
qed

lemma setCell_calls_keep:
  "wf_grid gs \<Longrightarrow> isValidPosition gs r c \<Longrightarrow> immutable (cell_at (grid gs) r c) \<Longrightarrow>
   cell_at (grid (setCell_calls gs calls)) r c = cell_at (grid gs) r c"
proof (induction calls arbitrary: gs)
  case Nil
  then show ?case by (simp add: setCell_calls_def)
next
  case (Cons a calls)
  obtain r' c' v where a: "a = (r', c', v)" by (cases a)
  let ?g = "fst (setCell gs r' c' v)"
  have keep: "cell_at (grid ?g) r c = cell_at (grid gs) r c"
    using Cons.prems by (rule setCell_keeps_immutable_cell)
  have "cell_at (grid (setCell_calls ?g calls)) r c = cell_at (grid ?g) r c"
    using Cons.prems keep
    by (intro Cons.IH) (simp_all add: setCell_wf isValidPosition_def setCell_gsize)
  with keep a show ?case by (simp add: setCell_calls_def)
qed

lemma demo_store_eq:
  "demo_store = \<lparr>gsize = 2,
      grid = [[\<lparr>val = Some ''moon'', immutable = True\<rparr>, empty_cell], [empty_cell, empty_cell]],
      constraints = []\<rparr>"
  by (simp add: demo_store_def setImmutable_def newGridSystem_def initializeGrid_def
      isValidPosition_def put_cell_def cell_at_def empty_cell_def upt_rec)

text \<open>
  C4. \<open>setCell\<close> returns \<open>true\<close> exactly when the position is within bounds and the target
  cell is not immutable. When it returns \<open>false\<close> the store is unchanged. When it returns
  \<open>true\<close> on a well-formed grid, the target cell holds the new value, every other cell,
  the size and the constraints are as before. An immutable cell keeps its value and its
  flag under any sequence of \<open>setCell\<close> calls, whatever their targets, and a sequence of
  calls that all target it leaves the whole store unchanged.
\<close>

theorem setCell_guard:
  "(snd (setCell gs r c v) \<longleftrightarrow>
      0 \<le> r \<and> r < int (gsize gs) \<and> 0 \<le> c \<and> c < int (gsize gs) \<and> \<not> immutable (cell_at (grid gs) r c))
   \<and> (\<not> snd (setCell gs r c v) \<longrightarrow> fst (setCell gs r c v) = gs)
   \<and> (wf_grid gs \<and> snd (setCell gs r c v) \<longrightarrow>
        cell_at (grid (fst (setCell gs r c v))) r c = \<lparr>val = v, immutable = False\<rparr>
        \<and> (\<forall>r' c'. isValidPosition gs r' c' \<and> (r', c') \<noteq> (r, c) \<longrightarrow>
              cell_at (grid (fst (setCell gs r c v))) r' c' = cell_at (grid gs) r' c')
        \<and> gsize (fst (setCell gs r c v)) = gsize gs
        \<and> constraints (fst (setCell gs r c v)) = constraints gs
        \<and> wf_grid (fst (setCell gs r c v)))
   \<and> (wf_grid gs \<and> isValidPosition gs r c \<and> immutable (cell_at (grid gs) r c) \<longrightarrow>
        (\<forall>calls. cell_at (grid (setCell_calls gs calls)) r c = cell_at (grid gs) r c)
        \<and> (\<forall>vs. fold (\<lambda>x g. fst (setCell g r c x)) vs gs = gs))"
proof (intro conjI impI allI)
  show "snd (setCell gs r c v) \<longleftrightarrow>
      0 \<le> r \<and> r < int (gsize gs) \<and> 0 \<le> c \<and> c < int (gsize gs) \<and> \<not> immutable (cell_at (grid gs) r c)"
    by (simp add: setCell_def isValidPosition_def)
next
  assume "\<not> snd (setCell gs r c v)"
  then show "fst (setCell gs r c v) = gs" by (auto simp: setCell_def)
next
  assume a: "wf_grid gs \<and> snd (setCell gs r c v)"
  then have ok: "isValidPosition gs r c" "\<not> immutable (cell_at (grid gs) r c)"
    by (auto simp: setCell_def split: if_splits)
  then have "nat r < length (grid gs)" "nat c < length (grid gs ! nat r)"
    using a by (auto simp: isValidPosition_def wf_grid_def list_all_length)
  then show "cell_at (grid (fst (setCell gs r c v))) r c = \<lparr>val = v, immutable = False\<rparr>"
    using ok by (simp add: setCell_def cell_at_put_same)
next
  fix r' c'
  assume a: "wf_grid gs \<and> snd (setCell gs r c v)"
    and b: "isValidPosition gs r' c' \<and> (r', c') \<noteq> (r, c)"
  from a have ok: "isValidPosition gs r c" by (auto simp: setCell_def split: if_splits)
  with a b show "cell_at (grid (fst (setCell gs r c v))) r' c' = cell_at (grid gs) r' c'"
    by (simp add: setCell_def isValidPosition_def cell_at_put_other)
next
  show "gsize (fst (setCell gs r c v)) = gsize gs" by (rule setCell_gsize)
next
  show "constraints (fst (setCell gs r c v)) = constraints gs" by (rule setCell_constraints)
next
  assume "wf_grid gs \<and> snd (setCell gs r c v)"
  then show "wf_grid (fst (setCell gs r c v))" by (simp add: setCell_wf)
next
  fix calls
  assume "wf_grid gs \<and> isValidPosition gs r c \<and> immutable (cell_at (grid gs) r c)"
  then show "cell_at (grid (setCell_calls gs calls)) r c = cell_at (grid gs) r c"
    by (simp add: setCell_calls_keep)
next
  fix vs
  assume a: "wf_grid gs \<and> isValidPosition gs r c \<and> immutable (cell_at (grid gs) r c)"
  then have "\<And>x. fst (setCell gs r c x) = gs" by (simp add: setCell_def)
  then show "fold (\<lambda>x g. fst (setCell g r c x)) vs gs = gs"
    by (induction vs) simp_all
qed

theorem setCell_guard_witness:
  "wf_grid demo_store
   \<and> snd (setCell demo_store 0 1 (Some ''orange''))
   \<and> cell_at (grid (fst (setCell demo_store 0 1 (Some ''orange'')))) 0 1
       = \<lparr>val = Some ''orange'', immutable = False\<rparr>
   \<and> cell_at (grid (fst (setCell demo_store 0 1 (Some ''orange'')))) 0 0
       = \<lparr>val = Some ''moon'', immutable = True\<rparr>
   \<and> \<not> snd (setCell demo_store 0 0 (Some ''orange''))
   \<and> \<not> snd (setCell demo_store 2 0 (Some ''orange''))
   \<and> \<not> snd (setCell demo_store 0 (- 1) (Some ''orange''))
   \<and> fst (setCell demo_store 0 0 (Some ''orange'')) = demo_store
   \<and> isValidPosition demo_store 0 0 \<and> immutable (cell_at (grid demo_store) 0 0)
   \<and> cell_at (grid (setCell_calls demo_store [(0, 0, Some ''orange''), (0, 1, None), (0, 0, None)])) 0 0
       = \<lparr>val = Some ''moon'', immutable = True\<rparr>"
proof -
  have wf: "wf_grid demo_store"
    by (simp add: demo_store_eq wf_grid_def)
  have ok: "snd (setCell demo_store 0 1 (Some ''orange''))"
    by (simp add: demo_store_eq setCell_def isValidPosition_def cell_at_def empty_cell_def)
  have valid: "isValidPosition demo_store 0 0" "isValidPosition demo_store 0 0 \<and> (0, 0) \<noteq> (0, 1 :: int)"
    by (simp_all add: demo_store_eq isValidPosition_def)
  have imm: "immutable (cell_at (grid demo_store) 0 0)"
    "cell_at (grid demo_store) 0 0 = \<lparr>val = Some ''moon'', immutable = True\<rparr>"
    by (simp_all add: demo_store_eq cell_at_def)
  have bad: "\<not> (2 < int (gsize demo_store))"
    by (simp add: demo_store_eq)
  show ?thesis
    using setCell_guard [of demo_store 0 1 "Some ''orange''"]
      setCell_guard [of demo_store 0 0 "Some ''orange''"]
      setCell_guard [of demo_store 2 0 "Some ''orange''"]
      setCell_guard [of demo_store 0 "- 1" "Some ''orange''"]
      wf ok valid imm bad
    by simp
qed

section \<open>Properties of the session controller\<close>

lemma set_val_same:
  assumes "val (cell_at g r c) = v"
  shows "set_val g r c v = g"
proof -
  have "(cell_at g r c)\<lparr>val := v\<rparr> = cell_at g r c"
    using assms by (cases "cell_at g r c") auto
  then show ?thesis by (simp add: set_val_def put_cell_same)
qed

lemma set_val_twice: "set_val (set_val g r c v) r c w = set_val g r c w"
proof (cases "nat r < length g")
  case False
  then show ?thesis by (simp add: set_val_def put_cell_def cell_at_def list_update_beyond)
next
  case True
  show ?thesis
  proof (cases "nat c < length (g ! nat r)")
    case False
    with True show ?thesis by (simp add: set_val_def put_cell_def cell_at_def list_update_beyond)
  next
    case c: True
    with True show ?thesis by (simp add: set_val_def put_cell_def cell_at_def)
  qed
qed

lemma set_val_undo: "val (cell_at g r c) = p \<Longrightarrow> set_val (set_val g r c v) r c p = g"
  by (simp add: set_val_twice set_val_same)

lemma replay_append: "replay g (xs @ ys) = replay (replay g xs) ys"
  by (simp add: replay_def)

lemma replay_snoc: "replay g (xs @ [m]) = apply_new (replay g xs) m"
  by (simp add: replay_def)

lemma consistent_append:
  "consistent g (xs @ ys) \<longleftrightarrow> consistent g xs \<and> consistent (replay g xs) ys"
  by (induction xs arbitrary: g) (auto simp: replay_def)

lemma consistent_take: "consistent g ms \<Longrightarrow> consistent g (take k ms)"
  using consistent_append [of g "take k ms" "drop k ms"] by simp

lemma consistent_nth:
  assumes "consistent g ms" "k < length ms"
  shows "val (cell_at (replay g (take k ms)) (mrow (ms ! k)) (mcol (ms ! k))) = previousValue (ms ! k)"
proof -
  have "ms = take k ms @ ms ! k # drop (Suc k) ms"
    using assms(2) by (simp add: id_take_nth_drop)
  then have "consistent g (take k ms @ ms ! k # drop (Suc k) ms)"
    using assms(1) by simp
  then show ?thesis by (simp add: consistent_append)
qed

lemma rewind_replay: "consistent g ms \<Longrightarrow> rewind (replay g ms) ms = g"
proof (induction ms arbitrary: g)
  case Nil
  then show ?case by (simp add: rewind_def replay_def)
next
  case (Cons m ms)
  then have "rewind (replay (apply_new g m) ms) ms = apply_new g m" by simp
  then have "rewind (replay g (m # ms)) (m # ms) = apply_prev (apply_new g m) m"
    by (simp add: rewind_def replay_def)
  also have "\<dots> = g"
    using Cons.prems by (simp add: apply_prev_def apply_new_def set_val_undo)
  finally show ?case .
qed

text \<open>The invariant in terms of some base grid.\<close>

lemma history_from_base:
  assumes "consistent b ms" "g = replay b (take k ms)"
  shows "consistent (rewind g (take k ms)) ms \<and> replay (rewind g (take k ms)) (take k ms) = g"
proof -
  have "rewind g (take k ms) = b"
    using assms by (simp add: rewind_replay consistent_take)
  with assms show ?thesis by simp
qed

lemma cell_at_put_cell:
  "cell_at (put_cell g r c x) r' c' =
     (if nat r' = nat r \<and> nat r < length g \<and> nat c' = nat c \<and> nat c < length (g ! nat r)
      then x else cell_at g r' c')"
  by (cases "nat r < length g"; cases "nat c < length (g ! nat r)")
     (auto simp: cell_at_def put_cell_def nth_list_update list_update_beyond)

lemma immutable_set_val: "immutable (cell_at (set_val g r c v) r' c') = immutable (cell_at g r' c')"
  by (simp add: set_val_def cell_at_put_cell) (auto simp: cell_at_def)

lemma wf_grid_set_val: "wf_grid gs \<Longrightarrow> wf_grid (gs\<lparr>grid := set_val (grid gs) r c v\<rparr>)"
  by (simp add: set_val_def wf_grid_put_cell)

lemma writable_set_val: "writable (gs\<lparr>grid := set_val (grid gs) r c v\<rparr>) = writable gs"
  by (rule ext) (simp add: writable_def isValidPosition_def immutable_set_val)

lemma setCell_success:
  "snd (setCell gs r c v) \<Longrightarrow> fst (setCell gs r c v) = gs\<lparr>grid := set_val (grid gs) r c v\<rparr>"
  by (auto simp: setCell_def set_val_def)

lemma setCell_writable: "writable gs m \<Longrightarrow> snd (setCell gs (mrow m) (mcol m) v)"
  by (simp add: writable_def setCell_def)

lemma session_inv_base:
  "session_inv gm \<Longrightarrow> \<exists>b. consistent b (moveHistory gm) \<and> grid (gridSystem gm) = replay b (applied gm)"
  unfolding session_inv_def by metis

lemma session_invI:
  assumes "wf_grid (gridSystem gm)" "- 1 \<le> currentMoveIndex gm"
    "currentMoveIndex gm < int (length (moveHistory gm))"
    "list_all (writable (gridSystem gm)) (moveHistory gm)"
    "consistent b (moveHistory gm)" "grid (gridSystem gm) = replay b (applied gm)"
  shows "session_inv gm"
  using assms history_from_base [of b "moveHistory gm" "grid (gridSystem gm)" "nat (currentMoveIndex gm + 1)"]
  by (simp add: session_inv_def applied_def)

lemma cursor_move_writable:
  assumes "session_inv gm" "0 \<le> currentMoveIndex gm"
  shows "writable (gridSystem gm) (move_at_cursor gm)"
proof -
  have "currentMoveIndex gm < int (length (moveHistory gm))"
    using assms(1) by (simp add: session_inv_def)
  with assms(2) have "nat (currentMoveIndex gm) < length (moveHistory gm)"
    by linarith
  then show ?thesis
    using assms(1) by (simp add: session_inv_def move_at_cursor_def list_all_length)
qed

lemma applied_snoc:
  assumes "0 \<le> k" "k < int (length ms)"
  shows "take (nat (k + 1)) ms = take (nat k) ms @ [ms ! nat k]"
proof -
  have "nat (k + 1) = Suc (nat k)" using assms by simp
  then show ?thesis using assms by (simp add: take_Suc_conv_app_nth)
qed

lemma undone_grid:
  assumes "consistent b ms" "0 \<le> k" "k < int (length ms)" "g = replay b (take (nat (k + 1)) ms)"
  shows "apply_prev g (ms ! nat k) = replay b (take (nat k) ms)"
proof -
  let ?m = "ms ! nat k" and ?G = "replay b (take (nat k) ms)"
  have "g = apply_new ?G ?m"
    using assms by (simp add: applied_snoc replay_snoc)
  moreover have "val (cell_at ?G (mrow ?m) (mcol ?m)) = previousValue ?m"
    using assms by (intro consistent_nth) simp_all
  ultimately show ?thesis
    by (simp add: apply_prev_def apply_new_def set_val_undo)
qed

lemma undo_step:
  assumes "session_inv gm" "0 \<le> currentMoveIndex gm"
  shows "undo gm = Some (after_undo gm,
           HistorySuccess (move_at_cursor gm) (0 \<le> currentMoveIndex gm - 1) True)"
proof -
  have w: "snd (setCell (gridSystem gm) (mrow (move_at_cursor gm)) (mcol (move_at_cursor gm))
               (previousValue (move_at_cursor gm)))"
    using assms by (intro setCell_writable cursor_move_writable)
  have lt: "currentMoveIndex gm < int (length (moveHistory gm))"
    using assms(1) by (simp add: session_inv_def)
  show ?thesis
    using assms(2) lt w setCell_success [OF w]
    by (simp add: undo_def Let_def after_undo_def apply_prev_def move_at_cursor_def)
qed

lemma redo_step:
  assumes "session_inv gm" "currentMoveIndex gm < int (length (moveHistory gm)) - 1"
  shows "redo gm = Some (after_redo gm,
           HistorySuccess (moveHistory gm ! nat (currentMoveIndex gm + 1)) True
             (currentMoveIndex gm + 1 < int (length (moveHistory gm)) - 1))"
proof -
  let ?m = "moveHistory gm ! nat (currentMoveIndex gm + 1)"
  have ge: "- 1 \<le> currentMoveIndex gm"
    using assms(1) by (simp add: session_inv_def)
  then have "nat (currentMoveIndex gm + 1) < length (moveHistory gm)"
    using assms(2) by linarith
  then have "writable (gridSystem gm) ?m"
    using assms(1) by (simp add: session_inv_def list_all_length)
  then have w: "snd (setCell (gridSystem gm) (mrow ?m) (mcol ?m) (newValue ?m))"
    by (rule setCell_writable)
  show ?thesis
    using assms(2) ge w setCell_success [OF w]
    by (simp add: redo_def Let_def after_redo_def apply_new_def)
qed

lemma session_inv_after_undo:
  assumes "session_inv gm" "0 \<le> currentMoveIndex gm"
  shows "session_inv (after_undo gm)"
proof -
  obtain b where b: "consistent b (moveHistory gm)" "grid (gridSystem gm) = replay b (applied gm)"
    using session_inv_base [OF assms(1)] by blast
  have lt: "currentMoveIndex gm < int (length (moveHistory gm))"
    using assms(1) by (simp add: session_inv_def)
  have g: "apply_prev (grid (gridSystem gm)) (move_at_cursor gm)
             = replay b (take (nat (currentMoveIndex gm)) (moveHistory gm))"
    unfolding move_at_cursor_def
    using b assms(2) lt by (intro undone_grid) (simp_all add: applied_def)
  show ?thesis
  proof (rule session_invI [where b = b])
    show "wf_grid (gridSystem (after_undo gm))"
      using assms(1) by (simp add: after_undo_def apply_prev_def wf_grid_set_val session_inv_def)
    show "- 1 \<le> currentMoveIndex (after_undo gm)"
      using assms(2) by (simp add: after_undo_def)
    show "currentMoveIndex (after_undo gm) < int (length (moveHistory (after_undo gm)))"
      using lt by (simp add: after_undo_def)
    show "list_all (writable (gridSystem (after_undo gm))) (moveHistory (after_undo gm))"
      using assms(1) by (simp add: after_undo_def apply_prev_def writable_set_val session_inv_def)
    show "consistent b (moveHistory (after_undo gm))"
      using b by (simp add: after_undo_def)
    show "grid (gridSystem (after_undo gm)) = replay b (applied (after_undo gm))"
      using g by (simp add: after_undo_def applied_def)
  qed
qed

lemma session_inv_after_redo:
  assumes "session_inv gm" "currentMoveIndex gm < int (length (moveHistory gm)) - 1"
  shows "session_inv (after_redo gm)"
proof -
  obtain b where b: "consistent b (moveHistory gm)" "grid (gridSystem gm) = replay b (applied gm)"
    using session_inv_base [OF assms(1)] by blast
  have ge: "- 1 \<le> currentMoveIndex gm"
    using assms(1) by (simp add: session_inv_def)
  have snoc: "take (nat (currentMoveIndex gm + 1 + 1)) (moveHistory gm)
      = take (nat (currentMoveIndex gm + 1)) (moveHistory gm) @ [moveHistory gm ! nat (currentMoveIndex gm + 1)]"
    using ge assms(2) by (intro applied_snoc) simp_all
  show ?thesis
  proof (rule session_invI [where b = b])
    show "wf_grid (gridSystem (after_redo gm))"
      using assms(1) by (simp add: after_redo_def apply_new_def wf_grid_set_val session_inv_def)
    show "- 1 \<le> currentMoveIndex (after_redo gm)"
      using ge by (simp add: after_redo_def)
    show "currentMoveIndex (after_redo gm) < int (length (moveHistory (after_redo gm)))"
      using assms(2) by (simp add: after_redo_def)
    show "list_all (writable (gridSystem (after_redo gm))) (moveHistory (after_redo gm))"
      using assms(1) by (simp add: after_redo_def apply_new_def writable_set_val session_inv_def)
    show "consistent b (moveHistory (after_redo gm))"
      using b by (simp add: after_redo_def)
    show "grid (gridSystem (after_redo gm)) = replay b (applied (after_redo gm))"
      using b(2) snoc by (simp add: after_redo_def applied_def replay_snoc)
  qed
qed


lemma started_fields [simp]:
  "gridSystem (started gm now) = gridSystem gm"
  "moveHistory (started gm now) = moveHistory gm"
  "currentMoveIndex (started gm now) = currentMoveIndex gm"
  by (simp_all add: started_def startGame_def startTimer_def)

lemma started_state: "active gm \<Longrightarrow> gameState (started gm now) = Playing"
  by (auto simp: started_def startGame_def startTimer_def active_def)

lemma slice0_take: "- 1 \<le> k \<Longrightarrow> slice0 xs (k + 1) = take (nat (k + 1)) xs"
  by (simp add: slice0_def min_def)

lemma makeMove_inactive:
  "\<not> active gm \<Longrightarrow> makeMove gm r c v now = (gm, MoveFailure ''Game not active'')"
  by (simp add: makeMove_def active_def)

lemma makeMove_invalid:
  "active gm \<Longrightarrow> \<not> snd (setCell (gridSystem gm) r c v) \<Longrightarrow>
   makeMove gm r c v now = (started gm now, MoveFailure ''Invalid move'')"
  by (auto simp: makeMove_def active_def started_def Let_def startGame_def startTimer_def)

lemma makeMove_valid:
  assumes "active gm" "snd (setCell (gridSystem gm) r c v)"
  shows "fst (makeMove gm r c v now) =
     (if isGameCompleted (recorded gm r c v now)
      then completeGame (recorded gm r c v now) now else recorded gm r c v now)"
proof -
  have "isValidPosition (gridSystem gm) r c"
    using assms(2) by (auto simp: setCell_def split: if_splits)
  then have pv: "(case getCell (gridSystem gm) r c of None \<Rightarrow> None | Some x \<Rightarrow> val x)
      = val (cell_at (grid (gridSystem gm)) r c)"
    by (simp add: getCell_def)
  have gs: "gridSystem (fst (startGame gm now)) = gridSystem gm"
    by (simp add: startGame_def startTimer_def)
  show ?thesis
    using assms pv
    by (cases "gameState gm = Ready")
       (simp_all add: makeMove_def active_def Let_def recorded_def started_def gs)
qed

lemma recorded_fields:
  "gridSystem (recorded gm r c v now) = fst (setCell (gridSystem gm) r c v)"
  "moveHistory (recorded gm r c v now)
     = slice0 (moveHistory gm) (currentMoveIndex gm + 1) @ [new_record gm r c v now]"
  "currentMoveIndex (recorded gm r c v now) = currentMoveIndex gm + 1"
  "gameState (recorded gm r c v now) = gameState (started gm now)"
  "timer (recorded gm r c v now) = timer (started gm now)"
  by (simp_all add: recorded_def recordMove_def new_record_def)

lemma completeGame_fields:
  "gridSystem (completeGame gm now) = gridSystem gm"
  "moveHistory (completeGame gm now) = moveHistory gm"
  "currentMoveIndex (completeGame gm now) = currentMoveIndex gm"
  "gameState (completeGame gm now) = Completed"
  "\<not> isRunning (timer (completeGame gm now))"
  by (simp_all add: completeGame_def pauseTimer_def)

lemma isGameCompleted_iff:
  "isGameCompleted gm \<longleftrightarrow> all_filled (gridSystem gm) \<and> isValid (gridSystem gm)"
  by (auto simp: isGameCompleted_def all_filled_def list_ex_iff list_all_iff row_val_def
      simp del: not_None_eq)

lemma isGameCompleted_cong:
  "gridSystem gm' = gridSystem gm \<Longrightarrow> isGameCompleted gm' = isGameCompleted gm"
  by (simp add: isGameCompleted_def)

text \<open>
  C6. With a cursor at \<open>-1\<close> or further on, \<open>recordMove\<close> keeps the entries of the history
  up to and including the cursor, drops the rest, appends the new record and advances the
  cursor by one. A successful \<open>makeMove\<close> records its move that way, with the value the
  cell held before as \<open>previousValue\<close>; afterwards the cursor is at the last entry and
  \<open>redo\<close> finds nothing to redo.
\<close>

theorem recordMove_truncates:
  assumes "- 1 \<le> currentMoveIndex gm"
  shows "moveHistory (recordMove gm r c pv nv now)
           = take (nat (currentMoveIndex gm + 1)) (moveHistory gm)
             @ [\<lparr>mrow = r, mcol = c, previousValue = pv, newValue = nv, timestamp = now\<rparr>]
         \<and> currentMoveIndex (recordMove gm r c pv nv now) = currentMoveIndex gm + 1
         \<and> (active gm \<and> snd (setCell (gridSystem gm) r c v) \<longrightarrow>
              moveHistory (fst (makeMove gm r c v now))
                = take (nat (currentMoveIndex gm + 1)) (moveHistory gm) @ [new_record gm r c v now]
              \<and> currentMoveIndex (fst (makeMove gm r c v now)) = currentMoveIndex gm + 1)
         \<and> (active gm \<and> snd (setCell (gridSystem gm) r c v)
              \<and> currentMoveIndex gm < int (length (moveHistory gm)) \<longrightarrow>
              currentMoveIndex (fst (makeMove gm r c v now))
                = int (length (moveHistory (fst (makeMove gm r c v now)))) - 1
              \<and> redo (fst (makeMove gm r c v now))
                = Some (fst (makeMove gm r c v now), HistoryFailure ''No moves to redo''))"
proof (intro conjI impI)
  show "moveHistory (recordMove gm r c pv nv now)
           = take (nat (currentMoveIndex gm + 1)) (moveHistory gm)
             @ [\<lparr>mrow = r, mcol = c, previousValue = pv, newValue = nv, timestamp = now\<rparr>]"
    using assms by (simp add: recordMove_def slice0_take)
  show "currentMoveIndex (recordMove gm r c pv nv now) = currentMoveIndex gm + 1"
    by (simp add: recordMove_def)
next
  assume a: "active gm \<and> snd (setCell (gridSystem gm) r c v)"
  then have m: "fst (makeMove gm r c v now) =
     (if isGameCompleted (recorded gm r c v now)
      then completeGame (recorded gm r c v now) now else recorded gm r c v now)"
    by (simp add: makeMove_valid)
  show "moveHistory (fst (makeMove gm r c v now))
         = take (nat (currentMoveIndex gm + 1)) (moveHistory gm) @ [new_record gm r c v now]"
    using assms by (simp add: m completeGame_fields recorded_fields slice0_take)
  show "currentMoveIndex (fst (makeMove gm r c v now)) = currentMoveIndex gm + 1"
    by (simp add: m completeGame_fields recorded_fields)
next
  assume a: "active gm \<and> snd (setCell (gridSystem gm) r c v)
        \<and> currentMoveIndex gm < int (length (moveHistory gm))"
  then have m: "fst (makeMove gm r c v now) =
     (if isGameCompleted (recorded gm r c v now)
      then completeGame (recorded gm r c v now) now else recorded gm r c v now)"
    by (simp add: makeMove_valid)
  have "nat (currentMoveIndex gm + 1) \<le> length (moveHistory gm)"
    using a assms by linarith
  then have len: "length (take (nat (currentMoveIndex gm + 1)) (moveHistory gm)) = nat (currentMoveIndex gm + 1)"
    by simp
  show last: "currentMoveIndex (fst (makeMove gm r c v now))
         = int (length (moveHistory (fst (makeMove gm r c v now)))) - 1"
    using assms len by (simp add: m completeGame_fields recorded_fields slice0_take)
  show "redo (fst (makeMove gm r c v now))
         = Some (fst (makeMove gm r c v now), HistoryFailure ''No moves to redo'')"
    using last by (simp add: redo_def)
qed

lemma val_set_val:
  assumes "wf_grid gs" "isValidPosition gs r c"
  shows "val (cell_at (set_val (grid gs) r c v) r c) = v"
proof -
  have "nat r < length (grid gs)" "nat c < length (grid gs ! nat r)"
    using assms by (auto simp: isValidPosition_def wf_grid_def list_all_length)
  then show ?thesis by (simp add: set_val_def cell_at_put_same)
qed

lemma session_inv_cong:
  assumes "gridSystem gm' = gridSystem gm" "moveHistory gm' = moveHistory gm"
    "currentMoveIndex gm' = currentMoveIndex gm"
  shows "session_inv gm' = session_inv gm"
  using assms by (simp add: session_inv_def applied_def)

lemma session_inv_empty:
  assumes "wf_grid (gridSystem gm)" "moveHistory gm = []" "currentMoveIndex gm = - 1"
  shows "session_inv gm"
  using assms by (simp add: session_inv_def applied_def replay_def rewind_def)

lemma session_inv_recorded:
  assumes "session_inv gm" "snd (setCell (gridSystem gm) r c v)"
  shows "session_inv (recorded gm r c v now)"
proof -
  obtain b where b: "consistent b (moveHistory gm)" "grid (gridSystem gm) = replay b (applied gm)"
    using session_inv_base [OF assms(1)] by blast
  let ?m = "new_record gm r c v now"
  have ge: "- 1 \<le> currentMoveIndex gm" and lt: "currentMoveIndex gm < int (length (moveHistory gm))"
    and wf: "wf_grid (gridSystem gm)"
    using assms(1) by (simp_all add: session_inv_def)
  have hist: "moveHistory (recorded gm r c v now) = applied gm @ [?m]"
    using ge by (simp add: recorded_fields slice0_take applied_def)
  have "nat (currentMoveIndex gm + 1) \<le> length (moveHistory gm)"
    using ge lt by linarith
  then have len: "length (applied gm) = nat (currentMoveIndex gm + 1)"
    by (simp add: applied_def)
  have gs: "gridSystem (recorded gm r c v now)
              = (gridSystem gm)\<lparr>grid := set_val (grid (gridSystem gm)) r c v\<rparr>"
    using assms(2) by (simp add: recorded_fields setCell_success)
  have app: "applied (recorded gm r c v now) = applied gm @ [?m]"
    using ge len unfolding applied_def [of "recorded gm r c v now"] hist
    by (simp add: recorded_fields nat_add_distrib)
  have w: "writable (gridSystem gm) ?m"
    using assms(2) by (auto simp: writable_def new_record_def setCell_def split: if_splits)
  show ?thesis
  proof (rule session_invI [where b = b])
    show "wf_grid (gridSystem (recorded gm r c v now))"
      using wf by (simp add: gs wf_grid_set_val)
    show "- 1 \<le> currentMoveIndex (recorded gm r c v now)"
      using ge by (simp add: recorded_fields)
    show "currentMoveIndex (recorded gm r c v now) < int (length (moveHistory (recorded gm r c v now)))"
      using ge len unfolding hist by (simp add: recorded_fields(3))
    show "list_all (writable (gridSystem (recorded gm r c v now))) (moveHistory (recorded gm r c v now))"
      using assms(1) w unfolding gs writable_set_val hist
      by (auto simp: session_inv_def applied_def list_all_iff dest: in_set_takeD)
    show "consistent b (moveHistory (recorded gm r c v now))"
      using b unfolding hist
      by (simp add: consistent_append applied_def consistent_take new_record_def)
    show "grid (gridSystem (recorded gm r c v now)) = replay b (applied (recorded gm r c v now))"
      using b(2) by (simp add: app replay_snoc gs apply_new_def new_record_def)
  qed
qed

lemma session_inv_makeMove:
  assumes "session_inv gm"
  shows "session_inv (fst (makeMove gm r c v now))"
proof (cases "active gm")
  case False
  then show ?thesis using assms by (simp add: makeMove_inactive)
next
  case True
  show ?thesis
  proof (cases "snd (setCell (gridSystem gm) r c v)")
    case False
    have "session_inv (started gm now) = session_inv gm"
      by (rule session_inv_cong) simp_all
    with True False assms show ?thesis by (simp add: makeMove_invalid)
  next
    case ok: True
    have "session_inv (completeGame (recorded gm r c v now) now) = session_inv (recorded gm r c v now)"
      by (rule session_inv_cong) (simp_all add: completeGame_fields)
    with True ok assms show ?thesis
      by (simp add: makeMove_valid session_inv_recorded)
  qed
qed

lemma session_inv_undo:
  assumes "session_inv gm" "undo gm = Some (gm', res)"
  shows "session_inv gm'"
proof (cases "0 \<le> currentMoveIndex gm")
  case True
  have "gm' = after_undo gm"
    using assms(2) undo_step [OF assms(1) True] by simp
  then show ?thesis
    using assms(1) True by (simp add: session_inv_after_undo)
next
  case False
  then show ?thesis using assms by (simp add: undo_def)
qed

lemma session_inv_redo:
  assumes "session_inv gm" "redo gm = Some (gm', res)"
  shows "session_inv gm'"
proof (cases "currentMoveIndex gm < int (length (moveHistory gm)) - 1")
  case True
  have "gm' = after_redo gm"
    using assms(2) redo_step [OF assms(1) True] by simp
  then show ?thesis
    using assms(1) True by (simp add: session_inv_after_redo)
next
  case False
  then show ?thesis using assms by (simp add: redo_def)
qed


lemma undo_state_blind: "undo (gm\<lparr>gameState := s\<rparr>) = map_option (in_state s) (undo gm)"
  by (simp add: undo_def Let_def in_state_def)

lemma redo_state_blind: "redo (gm\<lparr>gameState := s\<rparr>) = map_option (in_state s) (redo gm)"
  by (simp add: redo_def Let_def in_state_def)

text \<open>
  C10. \<open>undo\<close> and \<open>redo\<close> do not look at the game state. Whatever state \<open>s\<close> the
  session is in (\<open>Paused\<close> and \<open>Completed\<close> too), \<open>undo\<close> with a cursor at 0 or beyond
  writes the move's \<open>previousValue\<close> and decrements the cursor, \<open>redo\<close> with a cursor below
  the last index advances the cursor and writes the next move's \<open>newValue\<close>; the results
  are those of any other game state with the state put back, and the game state is
  left as it was.
\<close>

theorem undo_redo_any_state:
  assumes "session_inv gm"
  shows "(0 \<le> currentMoveIndex gm \<longrightarrow>
            undo (gm\<lparr>gameState := s\<rparr>)
              = Some ((after_undo gm)\<lparr>gameState := s\<rparr>,
                      HistorySuccess (move_at_cursor gm) (0 \<le> currentMoveIndex gm - 1) True)
            \<and> currentMoveIndex (after_undo gm) = currentMoveIndex gm - 1
            \<and> val (cell_at (grid (gridSystem (after_undo gm)))
                     (mrow (move_at_cursor gm)) (mcol (move_at_cursor gm)))
                = previousValue (move_at_cursor gm))
       \<and> (currentMoveIndex gm < int (length (moveHistory gm)) - 1 \<longrightarrow>
            redo (gm\<lparr>gameState := s\<rparr>)
              = Some ((after_redo gm)\<lparr>gameState := s\<rparr>,
                      HistorySuccess (moveHistory gm ! nat (currentMoveIndex gm + 1)) True
                        (currentMoveIndex gm + 1 < int (length (moveHistory gm)) - 1))
            \<and> currentMoveIndex (after_redo gm) = currentMoveIndex gm + 1
            \<and> val (cell_at (grid (gridSystem (after_redo gm)))
                     (mrow (moveHistory gm ! nat (currentMoveIndex gm + 1)))
                     (mcol (moveHistory gm ! nat (currentMoveIndex gm + 1))))
                = newValue (moveHistory gm ! nat (currentMoveIndex gm + 1)))
       \<and> undo (gm\<lparr>gameState := s\<rparr>) = map_option (in_state s) (undo gm)
       \<and> redo (gm\<lparr>gameState := s\<rparr>) = map_option (in_state s) (redo gm)
       \<and> gameState (after_undo gm) = gameState gm
       \<and> gameState (after_redo gm) = gameState gm"
proof (intro conjI impI)
  have wf: "wf_grid (gridSystem gm)"
    using assms by (simp add: session_inv_def)
  {
    assume c: "0 \<le> currentMoveIndex gm"
    show "undo (gm\<lparr>gameState := s\<rparr>)
              = Some ((after_undo gm)\<lparr>gameState := s\<rparr>,
                      HistorySuccess (move_at_cursor gm) (0 \<le> currentMoveIndex gm - 1) True)"
      using undo_step [OF assms c] by (simp add: undo_state_blind in_state_def)
    show "currentMoveIndex (after_undo gm) = currentMoveIndex gm - 1"
      by (simp add: after_undo_def)
    have "isValidPosition (gridSystem gm) (mrow (move_at_cursor gm)) (mcol (move_at_cursor gm))"
      using cursor_move_writable [OF assms c] by (simp add: writable_def)
    with wf show "val (cell_at (grid (gridSystem (after_undo gm)))
                     (mrow (move_at_cursor gm)) (mcol (move_at_cursor gm)))
                = previousValue (move_at_cursor gm)"
      by (simp add: after_undo_def apply_prev_def val_set_val)
  }
  {
    assume c: "currentMoveIndex gm < int (length (moveHistory gm)) - 1"
    let ?m = "moveHistory gm ! nat (currentMoveIndex gm + 1)"
    show "redo (gm\<lparr>gameState := s\<rparr>)
              = Some ((after_redo gm)\<lparr>gameState := s\<rparr>,
                      HistorySuccess ?m True
                        (currentMoveIndex gm + 1 < int (length (moveHistory gm)) - 1))"
      using redo_step [OF assms c] by (simp add: redo_state_blind in_state_def)
    show "currentMoveIndex (after_redo gm) = currentMoveIndex gm + 1"
      by (simp add: after_redo_def)
    have "- 1 \<le> currentMoveIndex gm"
      using assms by (simp add: session_inv_def)
    with c have "nat (currentMoveIndex gm + 1) < length (moveHistory gm)"
      by linarith
    then have "writable (gridSystem gm) ?m"
      using assms by (simp add: session_inv_def list_all_length)
    then have "isValidPosition (gridSystem gm) (mrow ?m) (mcol ?m)"
      by (simp add: writable_def)
    with wf show "val (cell_at (grid (gridSystem (after_redo gm))) (mrow ?m) (mcol ?m)) = newValue ?m"
      by (simp add: after_redo_def apply_new_def val_set_val)
  }
  show "undo (gm\<lparr>gameState := s\<rparr>) = map_option (in_state s) (undo gm)"
    by (rule undo_state_blind)
  show "redo (gm\<lparr>gameState := s\<rparr>) = map_option (in_state s) (redo gm)"
    by (rule redo_state_blind)
  show "gameState (after_undo gm) = gameState gm"
    by (simp add: after_undo_def)
  show "gameState (after_redo gm) = gameState gm"
    by (simp add: after_redo_def)
qed

text \<open>
  C9. A \<open>makeMove\<close> in state \<open>Ready\<close> first starts the game: the state becomes \<open>Playing\<close>
  and the timer runs, with nothing else changed. A move that then fails, on a position
  out of bounds or on an immutable cell, returns \<open>Invalid move\<close> and leaves the session
  in that started state. A move that succeeds is recorded on top of the started state.
\<close>

theorem makeMove_from_ready:
  assumes "gameState gm = Ready"
  shows "gameState (started gm now) = Playing
       \<and> isRunning (timer (started gm now))
       \<and> (\<not> isRunning (timer gm) \<longrightarrow>
            startTime (timer (started gm now)) = Some (now - elapsedTime (timer gm)))
       \<and> gridSystem (started gm now) = gridSystem gm
       \<and> moveHistory (started gm now) = moveHistory gm
       \<and> currentMoveIndex (started gm now) = currentMoveIndex gm
       \<and> (\<not> isValidPosition (gridSystem gm) r c \<or> immutable (cell_at (grid (gridSystem gm)) r c) \<longrightarrow>
            makeMove gm r c v now = (started gm now, MoveFailure ''Invalid move''))
       \<and> (isValidPosition (gridSystem gm) r c \<and> \<not> immutable (cell_at (grid (gridSystem gm)) r c) \<longrightarrow>
            fst (makeMove gm r c v now)
              = (if isGameCompleted (recorded gm r c v now)
                 then completeGame (recorded gm r c v now) now else recorded gm r c v now)
            \<and> gameState (recorded gm r c v now) = Playing
            \<and> timer (recorded gm r c v now) = timer (started gm now))"
proof -
  have act: "active gm"
    using assms by (simp add: active_def)
  have ok: "snd (setCell (gridSystem gm) r c v)
      \<longleftrightarrow> isValidPosition (gridSystem gm) r c \<and> \<not> immutable (cell_at (grid (gridSystem gm)) r c)"
    by (simp add: setCell_def)
  have t: "isRunning (timer (started gm now))"
    "\<not> isRunning (timer gm) \<longrightarrow>
       startTime (timer (started gm now)) = Some (now - elapsedTime (timer gm))"
    using assms by (simp_all add: started_def startGame_def startTimer_def)
  show ?thesis
    using act ok t
    by (auto simp: started_state makeMove_invalid makeMove_valid recorded_fields)
qed

text \<open>
  C7. \<open>isGameCompleted\<close> holds exactly when no cell is \<open>null\<close> and the validator's
  \<open>isValid\<close> holds; with an empty cell it is false whatever the validator says. Every
  successful \<open>makeMove\<close> runs the check on the grid it has written: when it holds the
  state is \<open>Completed\<close> and the timer is paused, otherwise the state is \<open>Playing\<close>.
\<close>

theorem completion_check:
  "(isGameCompleted gm \<longleftrightarrow> all_filled (gridSystem gm) \<and> isValid (gridSystem gm))
   \<and> (\<not> all_filled (gridSystem gm) \<longrightarrow> \<not> isGameCompleted gm)
   \<and> (active gm \<and> snd (setCell (gridSystem gm) r c v) \<longrightarrow>
        gridSystem (fst (makeMove gm r c v now)) = fst (setCell (gridSystem gm) r c v)
        \<and> (isGameCompleted (fst (makeMove gm r c v now)) \<longrightarrow>
             gameState (fst (makeMove gm r c v now)) = Completed
             \<and> \<not> isRunning (timer (fst (makeMove gm r c v now)))
             \<and> timer (fst (makeMove gm r c v now)) = timer (pauseTimer (started gm now) now))
        \<and> (\<not> isGameCompleted (fst (makeMove gm r c v now)) \<longrightarrow>
             gameState (fst (makeMove gm r c v now)) = Playing
             \<and> timer (fst (makeMove gm r c v now)) = timer (started gm now)))"
proof (intro conjI impI)
  show "isGameCompleted gm \<longleftrightarrow> all_filled (gridSystem gm) \<and> isValid (gridSystem gm)"
    by (rule isGameCompleted_iff)
  show "\<not> all_filled (gridSystem gm) \<Longrightarrow> \<not> isGameCompleted gm"
    by (simp add: isGameCompleted_iff)
next
  assume a: "active gm \<and> snd (setCell (gridSystem gm) r c v)"
  let ?r = "recorded gm r c v now" and ?f = "fst (makeMove gm r c v now)"
  have m: "?f = (if isGameCompleted ?r then completeGame ?r now else ?r)"
    using a by (simp add: makeMove_valid)
  show gs: "gridSystem ?f = fst (setCell (gridSystem gm) r c v)"
    by (simp add: m completeGame_fields recorded_fields)
  have same: "isGameCompleted ?f = isGameCompleted ?r"
    by (rule isGameCompleted_cong) (simp add: gs recorded_fields)
  have tm: "timer (completeGame ?r now) = timer (pauseTimer (started gm now) now)"
    by (simp add: completeGame_def pauseTimer_def recorded_fields)
  {
    assume "isGameCompleted ?f"
    then have c: "isGameCompleted ?r" by (simp add: same)
    show "gameState ?f = Completed" by (simp add: m c completeGame_fields)
    show "\<not> isRunning (timer ?f)" by (simp add: m c completeGame_fields)
    show "timer ?f = timer (pauseTimer (started gm now) now)" by (simp add: m c tm)
  }
  {
    assume "\<not> isGameCompleted ?f"
    then have c: "\<not> isGameCompleted ?r" by (simp add: same)
    show "gameState ?f = Playing" using a by (simp add: m c recorded_fields started_state)
    show "timer ?f = timer (started gm now)" by (simp add: m c recorded_fields)
  }
qed

lemma newGridSystem_wf: "wf_grid (newGridSystem n)"
  by (simp add: wf_grid_def newGridSystem_def initializeGrid_def list_all_length)

lemma setImmutable_wf: "wf_grid gs \<Longrightarrow> wf_grid (fst (setImmutable gs r c v))"
  by (simp add: setImmutable_def wf_grid_put_cell)

lemma place_immutable_wf:
  "place_immutable ps g gs = Some (g', gs') \<Longrightarrow> wf_grid gs \<Longrightarrow> wf_grid gs'"
proof (induction ps arbitrary: g gs)
  case Nil
  then show ?case by simp
next
  case (Cons p ps)
  then show ?case
    by (auto split: option.splits intro: setImmutable_wf)
qed

lemma addConstraint_wf: "wf_grid (fst (addConstraint gs r1 c1 r2 c2 t)) = wf_grid gs"
  by (simp add: addConstraint_def wf_grid_def)

lemma constraint_round_wf: "wf_grid (constraint_round gs v1 v2 v3 v4) = wf_grid gs"
  by (simp add: constraint_round_def Let_def addConstraint_wf)

lemma add_constraints_wf:
  "add_constraints k g gs = Some (g', gs') \<Longrightarrow> wf_grid gs \<Longrightarrow> wf_grid gs'"
proof (induction k arbitrary: g gs)
  case 0
  then show ?case by simp
next
  case (Suc k)
  then show ?case
    by (auto split: option.splits simp: constraint_round_wf)
qed

lemma initializePuzzle_keeps:
  assumes "initializePuzzle gm = Some gm'" "wf_grid (gridSystem gm)"
  shows "wf_grid (gridSystem gm') \<and> moveHistory gm' = moveHistory gm
       \<and> currentMoveIndex gm' = currentMoveIndex gm"
  using assms
  by (auto simp: initializePuzzle_def Let_def storeInitialPuzzleState_def
      split: option.splits dest!: place_immutable_wf add_constraints_wf)

lemma clear_wf: "wf_grid gs \<Longrightarrow> wf_grid (clear gs)"
  by (simp add: clear_def wf_grid_def list_all_length)

lemma restore_fold_shape:
  "length (fold (\<lambda>(r, c) g. put_cell g (int r) (int c) (f g r c)) ps g) = length g
   \<and> (\<forall>i. length (fold (\<lambda>(r, c) g. put_cell g (int r) (int c) (f g r c)) ps g ! i) = length (g ! i))"
  by (induction ps arbitrary: g) (auto simp: length_put_cell row_length_put_cell)

lemma restoreInitialPuzzleState_keeps:
  assumes "restoreInitialPuzzleState gm = Some gm'" "wf_grid (gridSystem gm)"
  shows "wf_grid (gridSystem gm') \<and> moveHistory gm' = moveHistory gm
       \<and> currentMoveIndex gm' = currentMoveIndex gm"
proof (cases "initialPuzzleState gm")
  case None
  then have "initializePuzzle (gm\<lparr>gridSystem := clear (gridSystem gm)\<rparr>) = Some gm'"
    using assms(1) by (simp add: restoreInitialPuzzleState_def)
  from initializePuzzle_keeps [OF this] assms(2) show ?thesis
    by (simp add: clear_wf)
next
  case (Some a)
  obtain ig ks where a: "a = (ig, ks)" by (cases a)
  show ?thesis
    using assms Some a
    by (auto simp: restoreInitialPuzzleState_def wf_grid_def list_all_length restore_fold_shape)
qed

lemma reachable_session_inv: "reachable gm \<Longrightarrow> session_inv gm"
proof (induction rule: reachable.induct)
  case (constructed n d s gm)
  from initializePuzzle_keeps [OF constructed [unfolded newGameManager_def]]
  show ?case by (simp add: newGridSystem_wf session_inv_empty)
next
  case (moved gm r c v now)
  then show ?case by (simp add: session_inv_makeMove)
next
  case (undone gm gm' res)
  then show ?case by (simp add: session_inv_undo)
next
  case (redone gm gm' res)
  then show ?case by (simp add: session_inv_redo)
next
  case (started gm now)
  have "session_inv (fst (startGame gm now)) = session_inv gm"
    by (rule session_inv_cong) (simp_all add: startGame_def startTimer_def)
  with started show ?case by simp
next
  case (paused gm now)
  have "session_inv (fst (pauseGame gm now)) = session_inv gm"
    by (rule session_inv_cong) (simp_all add: pauseGame_def pauseTimer_def)
  with paused show ?case by simp
next
  case (reset gm gm')
  have "wf_grid (gridSystem gm)"
    using reset.IH by (simp add: session_inv_def)
  with restoreInitialPuzzleState_keeps [OF reset.hyps(2) [unfolded resetGame_def]]
  show ?case
    by (simp add: session_inv_empty clearMoveHistory_def resetTimer_def)
next
  case (renewed gm n d s gm')
  from initializePuzzle_keeps [OF renewed.hyps(2) [unfolded newGame_def]]
  show ?case
    by (simp add: session_inv_empty clearMoveHistory_def resetTimer_def newGridSystem_wf)
qed

section \<open>The session properties at concrete sessions\<close>

lemma demo_session_constructed:
  "newGameManager 2 ''medium'' (code_units ''TEST1234'') = Some demo_session"
  by code_simp

theorem recordMove_truncates_witness:
  "moveHistory after_ABC = [move_A, move_B, move_C]
   \<and> moveHistory rewound = [move_A, move_B, move_C]
   \<and> currentMoveIndex rewound = 0
   \<and> active rewound
   \<and> snd (setCell (gridSystem rewound) 1 0 (Some ''moon''))
   \<and> moveHistory (fst (makeMove rewound 1 0 (Some ''moon'') 4000)) = [move_A, move_D]
   \<and> currentMoveIndex (fst (makeMove rewound 1 0 (Some ''moon'') 4000)) = 1
   \<and> redo (fst (makeMove rewound 1 0 (Some ''moon'') 4000))
       = Some (fst (makeMove rewound 1 0 (Some ''moon'') 4000), HistoryFailure ''No moves to redo'')"
proof -
  have h: "- 1 \<le> currentMoveIndex rewound"
    by code_simp
  have facts: "moveHistory after_ABC = [move_A, move_B, move_C]"
    "moveHistory rewound = [move_A, move_B, move_C]"
    "currentMoveIndex rewound = 0"
    "active rewound \<and> snd (setCell (gridSystem rewound) 1 0 (Some ''moon''))"
    "new_record rewound 1 0 (Some ''moon'') 4000 = move_D"
    by code_simp+
  show ?thesis
    using recordMove_truncates [OF h, where r = 1 and c = 0 and v = "Some ''moon''" and now = 4000
        and pv = None and nv = None] facts
    by simp
qed


theorem undo_redo_any_state_witness:
  "session_inv paused_A
   \<and> gameState paused_A = Paused
   \<and> 0 \<le> currentMoveIndex paused_A
   \<and> undo paused_A = Some (after_undo paused_A, HistorySuccess move_A False True)
   \<and> gameState (after_undo paused_A) = Paused
   \<and> currentMoveIndex (after_undo paused_A) = - 1
   \<and> val (cell_at (grid (gridSystem (after_undo paused_A))) 0 0) = None
   \<and> session_inv (after_undo paused_A)
   \<and> currentMoveIndex (after_undo paused_A) < int (length (moveHistory (after_undo paused_A))) - 1
   \<and> redo ((after_undo paused_A)\<lparr>gameState := Completed\<rparr>)
       = Some ((after_redo (after_undo paused_A))\<lparr>gameState := Completed\<rparr>,
               HistorySuccess move_A True False)
   \<and> val (cell_at (grid (gridSystem (after_redo (after_undo paused_A)))) 0 0) = Some ''orange''"
proof -
  have h: "session_inv paused_A" "session_inv (after_undo paused_A)"
    by code_simp+
  have facts: "gameState paused_A = Paused" "currentMoveIndex paused_A = 0"
    "move_at_cursor paused_A = move_A" "paused_A\<lparr>gameState := Paused\<rparr> = paused_A"
    "moveHistory (after_undo paused_A) = [move_A]"
    "currentMoveIndex (after_undo paused_A) = - 1"
    by code_simp+
  show ?thesis
    using undo_redo_any_state [OF h(1), of Paused] undo_redo_any_state [OF h(2), of Completed]
      h facts
    by (simp add: move_A_def)
qed

theorem makeMove_from_ready_witness:
  "gameState demo_session = Ready
   \<and> immutable (cell_at (grid (gridSystem demo_session)) 1 1)
   \<and> makeMove demo_session 1 1 (Some ''moon'') 1000
       = (started demo_session 1000, MoveFailure ''Invalid move'')
   \<and> \<not> isValidPosition (gridSystem demo_session) 5 0
   \<and> makeMove demo_session 5 0 (Some ''moon'') 1000
       = (started demo_session 1000, MoveFailure ''Invalid move'')
   \<and> gameState (started demo_session 1000) = Playing
   \<and> isRunning (timer (started demo_session 1000))
   \<and> startTime (timer (started demo_session 1000)) = Some 1000
   \<and> isValidPosition (gridSystem demo_session) 0 0
   \<and> \<not> immutable (cell_at (grid (gridSystem demo_session)) 0 0)
   \<and> fst (makeMove demo_session 0 0 (Some ''orange'') 1000)
       = recorded demo_session 0 0 (Some ''orange'') 1000
   \<and> gameState (recorded demo_session 0 0 (Some ''orange'') 1000) = Playing
   \<and> timer (recorded demo_session 0 0 (Some ''orange'') 1000) = timer (started demo_session 1000)"
proof -
  have h: "gameState demo_session = Ready"
    by code_simp
  have facts: "immutable (cell_at (grid (gridSystem demo_session)) 1 1)"
    "\<not> isValidPosition (gridSystem demo_session) 5 0"
    "\<not> isRunning (timer demo_session)" "elapsedTime (timer demo_session) = 0"
    "isValidPosition (gridSystem demo_session) 0 0"
    "\<not> immutable (cell_at (grid (gridSystem demo_session)) 0 0)"
    "\<not> isGameCompleted (recorded demo_session 0 0 (Some ''orange'') 1000)"
    by code_simp+
  show ?thesis
    using makeMove_from_ready [OF h, of 1000 1 1 "Some ''moon''"]
      makeMove_from_ready [OF h, of 1000 5 0 "Some ''moon''"]
      makeMove_from_ready [OF h, of 1000 0 0 "Some ''orange''"] h facts
    by simp
qed

theorem completion_check_witness:
  "active almost_done
   \<and> snd (setCell (gridSystem almost_done) 1 0 (Some ''moon''))
   \<and> \<not> all_filled (gridSystem almost_done)
   \<and> \<not> isGameCompleted almost_done
   \<and> isGameCompleted (fst (makeMove almost_done 1 0 (Some ''moon'') 3000))
   \<and> gameState (fst (makeMove almost_done 1 0 (Some ''moon'') 3000)) = Completed
   \<and> \<not> isRunning (timer (fst (makeMove almost_done 1 0 (Some ''moon'') 3000)))
   \<and> snd (setCell (gridSystem almost_done) 1 0 (Some ''orange''))
   \<and> \<not> isGameCompleted (fst (makeMove almost_done 1 0 (Some ''orange'') 3000))
   \<and> gameState (fst (makeMove almost_done 1 0 (Some ''orange'') 3000)) = Playing"
proof -
  have facts: "active almost_done"
    "snd (setCell (gridSystem almost_done) 1 0 (Some ''moon''))"
    "snd (setCell (gridSystem almost_done) 1 0 (Some ''orange''))"
    "\<not> all_filled (gridSystem almost_done)"
    "isGameCompleted (fst (makeMove almost_done 1 0 (Some ''moon'') 3000))"
    "\<not> isGameCompleted (fst (makeMove almost_done 1 0 (Some ''orange'') 3000))"
    "\<not> isRunning (timer (pauseTimer (started almost_done 3000) 3000))"
    by code_simp+
  show ?thesis
    using completion_check [of almost_done 1 0 "Some ''moon''" 3000]
      completion_check [of almost_done 1 0 "Some ''orange''" 3000] facts
    by simp
qed

section \<open>Properties of the rule validator\<close>

lemma scan_line_run_length:
  "1 \<le> k \<Longrightarrow>
   scan_line get [k..<n] (run_length get (k - 1)) (get (k - 1))
     = map (\<lambda>i. (i, get i)) (filter (over_limit get) [k..<n])"
proof (induction "n - k" arbitrary: k)
  case 0
  then show ?case by simp
next
  case (Suc d)
  then have kn: "k < n" by simp
  obtain j where j: "k = Suc j" using Suc.prems by (cases k) auto
  have IH: "scan_line get [Suc k..<n] (run_length get k) (get k)
     = map (\<lambda>i. (i, get i)) (filter (over_limit get) [Suc k..<n])"
    using Suc.hyps(1) [of "Suc k"] Suc.hyps(2) by simp
  show ?case
  proof (cases "get k = get j \<and> get j \<noteq> None")
    case True
    then show ?thesis
      using kn IH by (simp add: upt_conv_Cons j over_limit_def)
  next
    case False
    then show ?thesis
      using kn IH by (auto simp: upt_conv_Cons j over_limit_def)
  qed
qed

lemma over_limit_iff:
  "over_limit get i \<longleftrightarrow> 2 \<le> i \<and> get i \<noteq> None \<and> get (i - 1) = get i \<and> get (i - 2) = get i"
proof (cases i)
  case 0
  then show ?thesis by (simp add: over_limit_def)
next
  case (Suc j)
  show ?thesis
  proof (cases j)
    case 0
    with Suc show ?thesis by (simp add: over_limit_def)
  next
    case (Suc k)
    have pos: "\<And>m. 0 < run_length get m"
      by (induct_tac m) simp_all
    have "1 < run_length get (Suc k) \<longleftrightarrow> get (Suc k) = get k \<and> get k \<noteq> None"
      using pos [of k] by auto
    with \<open>i = Suc j\<close> Suc show ?thesis
      by (auto simp: over_limit_def numeral_2_eq_2)
  qed
qed

lemma horizontal_errors_windows: "horizontal_errors gs r = horizontal_windows gs r"
  using scan_line_run_length [of 1 "\<lambda>c. row_val gs r c" "gsize gs"]
  by (simp add: horizontal_errors_def horizontal_windows_def comp_def)

lemma vertical_errors_windows: "vertical_errors gs c = vertical_windows gs c"
  using scan_line_run_length [of 1 "\<lambda>r. row_val gs r c" "gsize gs"]
  by (simp add: vertical_errors_def vertical_windows_def comp_def)

lemma filter_interval: "filter (\<lambda>i. lo \<le> i \<and> i < hi) [k..<n] = [max lo k..<min hi n]"
proof (induction n)
  case 0
  then show ?case by simp
next
  case (Suc n)
  show ?case
  proof (cases "k \<le> n")
    case False
    then show ?thesis by simp
  next
    case True
    consider "n < hi" "lo \<le> n" | "hi \<le> n" | "n < hi" "n < lo"
      by linarith
    then show ?thesis
    proof cases
      case 1
      then have "min hi n = n" "min hi (Suc n) = Suc n" "max lo k \<le> n"
        using True by simp_all
      then show ?thesis using 1 True Suc by simp
    next
      case 2
      then have "min hi (Suc n) = min hi n" by simp
      then show ?thesis using 2 True Suc by simp
    next
      case 3
      then show ?thesis using True Suc by simp
    qed
  qed
qed

lemma run_over_limit:
  assumes "is_run get n a l s" "a \<le> i" "i < a + l"
  shows "over_limit get i \<longleftrightarrow> a + 2 \<le> i"
proof -
  have v: "\<And>j. a \<le> j \<Longrightarrow> j < a + l \<Longrightarrow> get j = Some s"
    and left: "0 < a \<Longrightarrow> get (a - 1) \<noteq> Some s"
    using assms(1) by (auto simp: is_run_def list_all_iff)
  show ?thesis
  proof (cases "a + 2 \<le> i")
    case True
    then have "get i = Some s" "get (i - 1) = Some s" "get (i - 2) = Some s"
      using assms(2,3) by (auto intro!: v)
    with True show ?thesis by (simp add: over_limit_iff)
  next
    case False
    then have "i = a \<or> i = a + 1" using assms(2) by auto
    then have "i < 2 \<or> get (i - 1) \<noteq> get i \<or> get (i - 2) \<noteq> get i"
    proof
      assume "i = a"
      then show ?thesis using left v [of a] assms(3)
        by (cases "a = 0") auto
    next
      assume "i = a + 1"
      then show ?thesis using left v [of "a + 1"] assms(3)
        by (cases "a = 0") auto
    qed
    with False show ?thesis by (auto simp: over_limit_iff)
  qed
qed

lemma run_positions:
  assumes "is_run get n a l s"
  shows "filter (\<lambda>i. (a \<le> i \<and> i < a + l) \<and> over_limit get i) [1..<n] = [a + 2..<a + l]"
proof -
  have "filter (\<lambda>i. (a \<le> i \<and> i < a + l) \<and> over_limit get i) [1..<n]
      = filter (\<lambda>i. a + 2 \<le> i \<and> i < a + l) [1..<n]"
    using run_over_limit [OF assms] by (intro filter_cong) auto
  also have "\<dots> = [max (a + 2) 1..<min (a + l) n]"
    by (rule filter_interval)
  also have "\<dots> = [a + 2..<a + l]"
    using assms by (simp add: is_run_def max_def min_def)
  finally show ?thesis .
qed

lemma run_records_horizontal:
  assumes "is_run (\<lambda>c. row_val gs r c) (gsize gs) a l s"
  shows "filter (ends_within a l) (horizontal_errors gs r)
           = map (\<lambda>c. AdjacentHorizontal r (c - 2) c (Some s)) [a + 2..<a + l]"
proof -
  have "filter (ends_within a l) (horizontal_errors gs r)
      = map (\<lambda>c. AdjacentHorizontal r (c - 2) c (row_val gs r c))
          (filter (\<lambda>i. (a \<le> i \<and> i < a + l) \<and> over_limit (\<lambda>c. row_val gs r c) i) [1..<gsize gs])"
    by (simp add: horizontal_errors_windows horizontal_windows_def filter_map comp_def
        ends_within_def conj_commute)
  also have "\<dots> = map (\<lambda>c. AdjacentHorizontal r (c - 2) c (row_val gs r c)) [a + 2..<a + l]"
    by (simp only: run_positions [OF assms])
  also have "\<dots> = map (\<lambda>c. AdjacentHorizontal r (c - 2) c (Some s)) [a + 2..<a + l]"
    using assms by (intro map_cong) (auto simp: is_run_def list_all_iff)
  finally show ?thesis .
qed

lemma run_records_vertical:
  assumes "is_run (\<lambda>r. row_val gs r c) (gsize gs) a l s"
  shows "filter (ends_within a l) (vertical_errors gs c)
           = map (\<lambda>r. AdjacentVertical c (r - 2) r (Some s)) [a + 2..<a + l]"
proof -
  have "filter (ends_within a l) (vertical_errors gs c)
      = map (\<lambda>r. AdjacentVertical c (r - 2) r (row_val gs r c))
          (filter (\<lambda>i. (a \<le> i \<and> i < a + l) \<and> over_limit (\<lambda>r. row_val gs r c) i) [1..<gsize gs])"
    by (simp add: vertical_errors_windows vertical_windows_def filter_map comp_def
        ends_within_def conj_commute)
  also have "\<dots> = map (\<lambda>r. AdjacentVertical c (r - 2) r (row_val gs r c)) [a + 2..<a + l]"
    by (simp only: run_positions [OF assms])
  also have "\<dots> = map (\<lambda>r. AdjacentVertical c (r - 2) r (Some s)) [a + 2..<a + l]"
    using assms by (intro map_cong) (auto simp: is_run_def list_all_iff)
  finally show ?thesis .
qed

text \<open>
  C3. \<open>validateAdjacentLimits\<close> reports, for each row from left to right and then for
  each column from top to bottom, one record at every position where the run length of
  a non-empty value exceeds 2, citing the window from two positions before to the
  position itself; the run length exceeds 2 at a position exactly when the cell and the
  two before it hold the same non-empty value. A run of \<open>l\<close> cells starting at \<open>a\<close> (the
  cell before it, if any, holding another value) gives the records that end at \<open>a + 2\<close>
  up to \<open>a + l - 1\<close>, each window one step after the last: \<open>l - 2\<close> records, two for a
  run of four.
\<close>

theorem adjacent_windows:
  "validateAdjacentLimits gs
     = concat (map (horizontal_windows gs) [0..<gsize gs])
       @ concat (map (vertical_windows gs) [0..<gsize gs])
   \<and> (over_limit get i \<longleftrightarrow>
        2 \<le> i \<and> get i \<noteq> None \<and> get (i - 1) = get i \<and> get (i - 2) = get i)
   \<and> (is_run (\<lambda>c. row_val gs r c) (gsize gs) a l s \<longrightarrow>
        filter (ends_within a l) (horizontal_errors gs r)
          = map (\<lambda>c. AdjacentHorizontal r (c - 2) c (Some s)) [a + 2..<a + l]
        \<and> length (filter (ends_within a l) (horizontal_errors gs r)) = l - 2)
   \<and> (is_run (\<lambda>r. row_val gs r c) (gsize gs) a l s \<longrightarrow>
        filter (ends_within a l) (vertical_errors gs c)
          = map (\<lambda>r. AdjacentVertical c (r - 2) r (Some s)) [a + 2..<a + l]
        \<and> length (filter (ends_within a l) (vertical_errors gs c)) = l - 2)"
proof (intro conjI impI)
  show "validateAdjacentLimits gs
     = concat (map (horizontal_windows gs) [0..<gsize gs])
       @ concat (map (vertical_windows gs) [0..<gsize gs])"
  proof -
    have "horizontal_errors gs = horizontal_windows gs" "vertical_errors gs = vertical_windows gs"
      by (rule ext, rule horizontal_errors_windows) (rule ext, rule vertical_errors_windows)
    then show ?thesis by (simp add: validateAdjacentLimits_def)
  qed
  show "over_limit get i \<longleftrightarrow>
        2 \<le> i \<and> get i \<noteq> None \<and> get (i - 1) = get i \<and> get (i - 2) = get i"
    by (rule over_limit_iff)
next
  assume "is_run (\<lambda>c. row_val gs r c) (gsize gs) a l s"
  from run_records_horizontal [OF this]
  show "filter (ends_within a l) (horizontal_errors gs r)
          = map (\<lambda>c. AdjacentHorizontal r (c - 2) c (Some s)) [a + 2..<a + l]"
    and "length (filter (ends_within a l) (horizontal_errors gs r)) = l - 2"
    by simp_all
next
  assume "is_run (\<lambda>r. row_val gs r c) (gsize gs) a l s"
  from run_records_vertical [OF this]
  show "filter (ends_within a l) (vertical_errors gs c)
          = map (\<lambda>r. AdjacentVertical c (r - 2) r (Some s)) [a + 2..<a + l]"
    and "length (filter (ends_within a l) (vertical_errors gs c)) = l - 2"
    by simp_all
qed

theorem adjacent_windows_witness:
  "is_run (\<lambda>c. row_val demo_lines 0 c) (gsize demo_lines) 0 4 ''moon''
   \<and> filter (ends_within 0 4) (horizontal_errors demo_lines 0)
       = [AdjacentHorizontal 0 0 2 (Some ''moon''), AdjacentHorizontal 0 1 3 (Some ''moon'')]
   \<and> length (filter (ends_within 0 4) (horizontal_errors demo_lines 0)) = 2
   \<and> is_run (\<lambda>r. row_val demo_lines r 0) (gsize demo_lines) 0 3 ''moon''
   \<and> filter (ends_within 0 3) (vertical_errors demo_lines 0)
       = [AdjacentVertical 0 0 2 (Some ''moon'')]
   \<and> validateAdjacentLimits demo_lines
       = [AdjacentHorizontal 0 0 2 (Some ''moon''), AdjacentHorizontal 0 1 3 (Some ''moon''),
          AdjacentVertical 0 0 2 (Some ''moon'')]"
proof -
  have h: "is_run (\<lambda>c. row_val demo_lines 0 c) (gsize demo_lines) 0 4 ''moon''"
    "is_run (\<lambda>r. row_val demo_lines r 0) (gsize demo_lines) 0 3 ''moon''"
    by code_simp+
  have facts: "[0 + 2..<0 + 4] = [2, 3 :: nat]" "[0 + 2..<0 + 3] = [2 :: nat]"
    "concat (map (horizontal_windows demo_lines) [0..<gsize demo_lines])
       @ concat (map (vertical_windows demo_lines) [0..<gsize demo_lines])
     = [AdjacentHorizontal 0 0 2 (Some ''moon''), AdjacentHorizontal 0 1 3 (Some ''moon''),
        AdjacentVertical 0 0 2 (Some ''moon'')]"
    by code_simp+
  show ?thesis
    using adjacent_windows [of demo_lines "\<lambda>i. None" 0 0 0 4 "''moon''" 0]
      adjacent_windows [of demo_lines "\<lambda>i. None" 0 0 0 3 "''moon''" 0] h facts
    by simp
qed

lemma fold_count_step:
  "fold count_step vs acc
     = (fst acc + count_list vs (Some ''orange''), snd acc + count_list vs (Some ''moon''))"
  by (induction vs arbitrary: acc) (auto simp: count_step_def)

lemma count_line_counts:
  "count_line vs = (count_list vs (Some ''orange''), count_list vs (Some ''moon''))"
  by (simp add: count_line_def fold_count_step)

lemma two_counts_le_length: "x \<noteq> y \<Longrightarrow> count_list vs x + count_list vs y \<le> length vs"
  by (induction vs) auto

lemma cap_covers_half: "n \<le> 2 * maxAllowed n"
  by (simp add: maxAllowed_def)

lemma not_both_exceed:
  assumes "length vs = n"
  shows "\<not> (count_list vs (Some ''orange'') > maxAllowed n \<and> count_list vs (Some ''moon'') > maxAllowed n)"
proof
  assume a: "count_list vs (Some ''orange'') > maxAllowed n \<and> count_list vs (Some ''moon'') > maxAllowed n"
  have "count_list vs (Some ''orange'') + count_list vs (Some ''moon'') \<le> n"
    using two_counts_le_length [of "Some ''orange''" "Some ''moon''" vs] assms by simp
  with a cap_covers_half [of n] show False by linarith
qed

lemma line_balance_per_side_eq:
  assumes "length vs = n"
  shows "line_balance d n i vs = line_balance_per_side d n i vs"
  using not_both_exceed [OF assms]
  by (auto simp: line_balance_def line_balance_per_side_def count_line_counts Let_def)

lemma line_balance_length:
  assumes "length vs = n"
  shows "length (line_balance d n i vs) = sides_exceeded n vs"
  using not_both_exceed [OF assms]
  by (auto simp: line_balance_def sides_exceeded_def count_line_counts Let_def)

lemma line_lengths [simp]:
  "length (row_values gs r) = gsize gs" "length (column_values gs c) = gsize gs"
  by (simp_all add: row_values_def column_values_def)

lemma at_most_one_balance_record:
  "length (row_balance_errors gs i) \<le> 1" "length (column_balance_errors gs i) \<le> 1"
  by (simp_all add: row_balance_errors_def column_balance_errors_def line_balance_def Let_def)

text \<open>
  C2. \<open>validateBalance\<close> gives the records of the validator that tests each symbol's
  count against \<open>ceil(size / 2)\<close> on its own and emits one record per side exceeded
  (\<open>validateBalance_per_side\<close>): for every row and column the number of records is the
  number of sides exceeded, the counts being those of \<open>'orange'\<close> and of \<open>'moon'\<close> in
  the line. (The two counts of a line add up to \<open>size\<close> at most, so they never exceed
  the cap together, \<open>not_both_exceed\<close>, and no line has more than one record,
  \<open>at_most_one_balance_record\<close>.)
\<close>

theorem balance_per_side:
  "validateBalance gs = validateBalance_per_side gs
   \<and> length (row_balance_errors gs i) = sides_exceeded (gsize gs) (row_values gs i)
   \<and> length (column_balance_errors gs i) = sides_exceeded (gsize gs) (column_values gs i)
   \<and> count_line vs = (count_list vs (Some ''orange''), count_list vs (Some ''moon''))"
proof (intro conjI)
  have "row_balance_errors gs = (\<lambda>r. line_balance_per_side Row (gsize gs) r (row_values gs r))"
    "column_balance_errors gs = (\<lambda>c. line_balance_per_side Column (gsize gs) c (column_values gs c))"
    by (rule ext, simp add: row_balance_errors_def line_balance_per_side_eq)
       (rule ext, simp add: column_balance_errors_def line_balance_per_side_eq)
  then show "validateBalance gs = validateBalance_per_side gs"
    by (simp add: validateBalance_def validateBalance_per_side_def)
  show "length (row_balance_errors gs i) = sides_exceeded (gsize gs) (row_values gs i)"
    by (simp add: row_balance_errors_def line_balance_length)
  show "length (column_balance_errors gs i) = sides_exceeded (gsize gs) (column_values gs i)"
    by (simp add: column_balance_errors_def line_balance_length)
  show "count_line vs = (count_list vs (Some ''orange''), count_list vs (Some ''moon''))"
    by (rule count_line_counts)
qed

theorem balance_per_side_witness:
  "validateBalance demo_balance = [BalanceError Row 0 3 0, BalanceError Column 0 3 0]
   \<and> sides_exceeded (gsize demo_balance) (row_values demo_balance 0) = 1
   \<and> length (row_balance_errors demo_balance 0) = 1
   \<and> sides_exceeded (gsize demo_balance) (row_values demo_balance 1) = 0
   \<and> length (row_balance_errors demo_balance 1) = 0
   \<and> length (column_balance_errors demo_balance 0) = 1"
proof -
  have facts: "validateBalance_per_side demo_balance = [BalanceError Row 0 3 0, BalanceError Column 0 3 0]"
    "sides_exceeded (gsize demo_balance) (row_values demo_balance 0) = 1"
    "sides_exceeded (gsize demo_balance) (row_values demo_balance 1) = 0"
    "sides_exceeded (gsize demo_balance) (column_values demo_balance 0) = 1"
    by code_simp+
  show ?thesis
    using balance_per_side [of demo_balance 0 "[]"] balance_per_side [of demo_balance 1 "[]"] facts
    by simp
qed

section \<open>Properties of puzzle generation\<close>

lemma round_double_exact: "p < 2 ^ 53 \<Longrightarrow> round_double p = p"
  by (simp add: round_double_def excess_bits.simps [of p])

lemma lcg_next_exact:
  assumes "0 \<le> v" "v < 2 ^ 32"
  shows "lcg_next v = lcg_recurrence v"
proof -
  have "v * 1664525 \<le> (2 ^ 32 - 1) * 1664525"
    using assms by (intro mult_right_mono) simp_all
  then have a: "v * 1664525 < 2 ^ 53" by simp
  then have "round_double (v * 1664525) = v * 1664525"
    by (rule round_double_exact)
  moreover have "v * 1664525 + 1013904223 < 2 ^ 53"
    using \<open>v * 1664525 \<le> (2 ^ 32 - 1) * 1664525\<close> by simp
  ultimately show ?thesis
    by (simp add: lcg_next_def lcg_recurrence_def round_double_exact)
qed

lemma lcg_recurrence_range: "0 \<le> lcg_recurrence v \<and> lcg_recurrence v < 2 ^ 32"
  by (simp add: lcg_recurrence_def)

lemma lcg_next_iterates:
  assumes "0 \<le> v" "v < 2 ^ 32"
  shows "(lcg_next ^^ k) v = (lcg_recurrence ^^ k) v
         \<and> 0 \<le> (lcg_recurrence ^^ k) v \<and> (lcg_recurrence ^^ k) v < 2 ^ 32"
proof (induction k)
  case 0
  then show ?case using assms by simp
next
  case (Suc k)
  then show ?case
    using lcg_next_exact [of "(lcg_recurrence ^^ k) v"] lcg_recurrence_range [of "(lcg_recurrence ^^ k) v"]
    by simp
qed

lemma hash_step_range: "- (2 ^ 31) \<le> hash_step h c \<and> hash_step h c < 2 ^ 31"
proof -
  let ?w = "word_of_int (sint (push_bit 5 (word_of_int h :: 32 word)) - h + c) :: 32 word"
  have "- (2 ^ (LENGTH(32) - 1)) \<le> sint ?w" "sint ?w < 2 ^ (LENGTH(32) - 1)"
    by (rule sint_ge, rule sint_lt)
  then show ?thesis by (simp add: hash_step_def)
qed

lemma fold_hash_range:
  "- (2 ^ 31) \<le> h \<Longrightarrow> h < 2 ^ 31 \<Longrightarrow>
   - (2 ^ 31) \<le> fold (\<lambda>c h. hash_step h c) s h \<and> fold (\<lambda>c h. hash_step h c) s h < 2 ^ 31"
proof (induction s arbitrary: h)
  case Nil
  then show ?case by simp
next
  case (Cons a s)
  show ?case
    using hash_step_range [of h a] Cons.IH [of "hash_step h a"] by simp
qed

lemma seed_hash_range: "\<bar>seed_hash s\<bar> \<le> 2 ^ 31"
  using fold_hash_range [of 0 s] by (simp add: seed_hash_def abs_le_iff)

lemma funpow_funpow: "(f ^^ x) ((f ^^ y) v) = (f ^^ (x + y)) v"
  by (simp add: funpow_add)

lemma shuffle_loop_draws:
  "\<exists>ps'. shuffle_loop i (Some v) ps = Some (Some ((lcg_next ^^ i) v), ps')"
proof (induction i arbitrary: v ps)
  case 0
  then show ?case by simp
next
  case (Suc i)
  show ?case
    using Suc [of "lcg_next v"] by (simp add: random_def Let_def funpow_swap1)
qed

lemma place_immutable_draws:
  "\<exists>gs'. place_immutable ps (Some v) gs = Some (Some ((lcg_next ^^ length ps) v), gs')"
proof (induction ps arbitrary: v gs)
  case Nil
  then show ?case by simp
next
  case (Cons p ps)
  show ?case
    using Cons [of "lcg_next v"] by (simp add: random_def funpow_swap1)
qed

lemma add_constraints_draws:
  "\<exists>gs'. add_constraints k (Some v) gs = Some (Some ((lcg_next ^^ (4 * k)) v), gs')"
proof (induction k arbitrary: v gs)
  case 0
  then show ?case by simp
next
  case (Suc k)
  have "(lcg_next ^^ (4 * Suc k)) v = (lcg_next ^^ (4 * k + 4)) v"
    by (simp add: add.commute)
  also have "\<dots> = (lcg_next ^^ (4 * k)) ((lcg_next ^^ 4) v)"
    by (simp only: funpow_funpow)
  also have "(lcg_next ^^ 4) v = lcg_next (lcg_next (lcg_next (lcg_next v)))"
    by (simp add: numeral_eq_Suc funpow_swap1)
  finally have e: "(lcg_next ^^ (4 * Suc k)) v
      = (lcg_next ^^ (4 * k)) (lcg_next (lcg_next (lcg_next (lcg_next v))))" .
  show ?case
    unfolding e
    using Suc [of "lcg_next (lcg_next (lcg_next (lcg_next v)))"]
    by (simp add: random_def)
qed

lemma length_all_positions: "length (all_positions n) = n * n"
  by (simp add: all_positions_def length_concat comp_def sum_list_triv)

lemma shuffle_loop_length:
  "shuffle_loop i g ps = Some (g', ps') \<Longrightarrow> length ps' = length ps"
  by (induction i arbitrary: g ps) (auto simp: Let_def split: option.splits)

lemma initializePuzzle_seedValue:
  assumes "seed gm \<noteq> []"
  shows "map_option seedValue (initializePuzzle gm)
           = Some (Some ((lcg_next ^^ draws (difficulty gm) (gsize (gridSystem gm))) \<bar>seed_hash (seed gm)\<bar>))"
proof -
  let ?n = "gsize (gridSystem gm)" and ?v = "\<bar>seed_hash (seed gm)\<bar>"
  let ?ps = "all_positions ?n"
  obtain ps' where s: "shuffle_loop (length ?ps - 1) (Some ?v) ?ps
      = Some (Some ((lcg_next ^^ (length ?ps - 1)) ?v), ps')"
    using shuffle_loop_draws by blast
  have len: "length ps' = ?n * ?n"
    using shuffle_loop_length [OF s] by (simp add: length_all_positions)
  let ?k = "min (prefilledCount (difficulty gm) ?n) (?n * ?n)"
  obtain gs2 where p: "place_immutable (take ?k ps') (Some ((lcg_next ^^ (?n * ?n - 1)) ?v)) (gridSystem gm)
      = Some (Some ((lcg_next ^^ ?k) ((lcg_next ^^ (?n * ?n - 1)) ?v)), gs2)"
    using place_immutable_draws [of "take ?k ps'" "(lcg_next ^^ (?n * ?n - 1)) ?v" "gridSystem gm"] len
    by auto
  obtain gs3 where c: "add_constraints (constraintCount ?n)
        (Some ((lcg_next ^^ ?k) ((lcg_next ^^ (?n * ?n - 1)) ?v))) gs2
      = Some (Some ((lcg_next ^^ (4 * constraintCount ?n))
                ((lcg_next ^^ ?k) ((lcg_next ^^ (?n * ?n - 1)) ?v))), gs3)"
    using add_constraints_draws by blast
  have "(lcg_next ^^ (4 * constraintCount ?n)) ((lcg_next ^^ ?k) ((lcg_next ^^ (?n * ?n - 1)) ?v))
      = (lcg_next ^^ draws (difficulty gm) ?n) ?v"
    by (simp only: funpow_funpow draws_def add.commute add.left_commute)
  then show ?thesis
    using assms s p c len
    by (simp add: initializePuzzle_def Let_def seedRandom_def length_all_positions
        storeInitialPuzzleState_def)
qed

lemma initializePuzzle_two_runs:
  assumes "seed gm1 = seed gm2" "difficulty gm1 = difficulty gm2" "gridSystem gm1 = gridSystem gm2"
  shows "map_option gridSystem (initializePuzzle gm1) = map_option gridSystem (initializePuzzle gm2)"
    and "map_option initialPuzzleState (initializePuzzle gm1)
           = map_option initialPuzzleState (initializePuzzle gm2)"
  using assms
  by (auto simp: initializePuzzle_def Let_def storeInitialPuzzleState_def split: option.splits)

text \<open>
  C1. Generation is a function of the seed, the difficulty and the grid store it starts
  from, and of nothing else in the session: two sessions that agree on these get the
  same grid, the same constraint map (keys, endpoints and kinds, in order) and the same
  snapshot, or both fail; \<open>newGame\<close> from any session gives what the constructor gives for
  the same size, difficulty and seed. The generator is the seed hash followed by the
  recurrence: \<open>seedRandom\<close> starts it at the absolute value of the hash, below \<open>2 ^ 32\<close>,
  each \<open>random()\<close> maps a state below \<open>2 ^ 32\<close> to
  \<open>(state * 1664525 + 1013904223) mod 2 ^ 32\<close> (the double arithmetic is exact there),
  and generation with a non-empty seed returns, leaving \<open>seedValue\<close> at the hash advanced
  by the number of draws made.
\<close>

theorem generation_deterministic:
  "(seed gm1 = seed gm2 \<and> difficulty gm1 = difficulty gm2 \<and> gridSystem gm1 = gridSystem gm2 \<longrightarrow>
      map_option gridSystem (initializePuzzle gm1) = map_option gridSystem (initializePuzzle gm2)
      \<and> map_option initialPuzzleState (initializePuzzle gm1)
          = map_option initialPuzzleState (initializePuzzle gm2))
   \<and> (0 < n \<and> d \<noteq> [] \<longrightarrow>
        map_option gridSystem (newGame gm (Some n) (Some d) s)
          = map_option gridSystem (newGameManager n d s))
   \<and> (seed gm \<noteq> [] \<longrightarrow>
        map_option seedValue (initializePuzzle gm)
          = Some (Some ((lcg_recurrence ^^ draws (difficulty gm) (gsize (gridSystem gm)))
                          \<bar>seed_hash (seed gm)\<bar>)))
   \<and> (0 \<le> v \<and> v < 2 ^ 32 \<longrightarrow>
        random (Some v) = Some (lcg_recurrence v) \<and> 0 \<le> lcg_recurrence v \<and> lcg_recurrence v < 2 ^ 32)
   \<and> seedRandom s = (if s = [] then None else Some \<bar>seed_hash s\<bar>)
   \<and> \<bar>seed_hash s\<bar> \<le> 2 ^ 31"
proof (intro conjI impI)
  assume a: "seed gm1 = seed gm2 \<and> difficulty gm1 = difficulty gm2 \<and> gridSystem gm1 = gridSystem gm2"
  then show "map_option gridSystem (initializePuzzle gm1) = map_option gridSystem (initializePuzzle gm2)"
    by (intro initializePuzzle_two_runs) simp_all
  from a show "map_option initialPuzzleState (initializePuzzle gm1)
          = map_option initialPuzzleState (initializePuzzle gm2)"
    by (intro initializePuzzle_two_runs) simp_all
next
  assume "0 < n \<and> d \<noteq> []"
  then show "map_option gridSystem (newGame gm (Some n) (Some d) s)
          = map_option gridSystem (newGameManager n d s)"
    unfolding newGame_def newGameManager_def
    by (intro initializePuzzle_two_runs) (simp_all add: clearMoveHistory_def resetTimer_def)
next
  assume a: "seed gm \<noteq> []"
  have "0 \<le> \<bar>seed_hash (seed gm)\<bar>" "\<bar>seed_hash (seed gm)\<bar> < 2 ^ 32"
    using seed_hash_range [of "seed gm"] by simp_all
  from lcg_next_iterates [OF this] initializePuzzle_seedValue [OF a]
  show "map_option seedValue (initializePuzzle gm)
          = Some (Some ((lcg_recurrence ^^ draws (difficulty gm) (gsize (gridSystem gm)))
                          \<bar>seed_hash (seed gm)\<bar>))"
    by simp
next
  assume "0 \<le> v \<and> v < 2 ^ 32"
  then show "random (Some v) = Some (lcg_recurrence v)"
    by (simp add: random_def lcg_next_exact)
next
  show "0 \<le> lcg_recurrence v" "lcg_recurrence v < 2 ^ 32"
    using lcg_recurrence_range [of v] by simp_all
next
  show "seedRandom s = (if s = [] then None else Some \<bar>seed_hash s\<bar>)"
    by (simp add: seedRandom_def)
next
  show "\<bar>seed_hash s\<bar> \<le> 2 ^ 31"
    by (rule seed_hash_range)
qed

theorem generation_deterministic_witness:
  "seed (after_ABC\<lparr>gridSystem := newGridSystem 2, seedValue := Some 7\<rparr>) = code_units ''TEST1234''
   \<and> seed (demo_session\<lparr>gridSystem := newGridSystem 2\<rparr>) = code_units ''TEST1234''
   \<and> map_option gridSystem (initializePuzzle (after_ABC\<lparr>gridSystem := newGridSystem 2, seedValue := Some 7\<rparr>))
       = map_option gridSystem (initializePuzzle (demo_session\<lparr>gridSystem := newGridSystem 2\<rparr>))
   \<and> map_option gridSystem (initializePuzzle (demo_session\<lparr>gridSystem := newGridSystem 2\<rparr>))
       = Some (gridSystem demo_session)
   \<and> map_option gridSystem (newGame after_ABC (Some 2) (Some ''medium'') (code_units ''TEST1234''))
       = Some (gridSystem demo_session)
   \<and> map_option seedValue (initializePuzzle (demo_session\<lparr>gridSystem := newGridSystem 2\<rparr>))
       = Some (Some 3018209620)
   \<and> draws ''medium'' 2 = 8
   \<and> \<bar>seed_hash (code_units ''TEST1234'')\<bar> = 364270636
   \<and> random (Some 364270636) = Some 881246619"
proof -
  let ?g1 = "after_ABC\<lparr>gridSystem := newGridSystem 2, seedValue := Some 7\<rparr>"
  let ?g2 = "demo_session\<lparr>gridSystem := newGridSystem 2\<rparr>"
  have h: "seed ?g1 = seed ?g2 \<and> difficulty ?g1 = difficulty ?g2 \<and> gridSystem ?g1 = gridSystem ?g2"
    "0 < (2 :: nat) \<and> ''medium'' \<noteq> []" "seed ?g2 \<noteq> []"
    "0 \<le> (364270636 :: int) \<and> (364270636 :: int) < 2 ^ 32"
    by code_simp+
  have facts: "seed ?g1 = code_units ''TEST1234''" "seed ?g2 = code_units ''TEST1234''"
    "difficulty ?g2 = ''medium''" "gsize (gridSystem ?g2) = 2"
    "newGameManager 2 ''medium'' (code_units ''TEST1234'') = Some demo_session"
    "draws ''medium'' 2 = 8"
    "\<bar>seed_hash (code_units ''TEST1234'')\<bar> = 364270636"
    "(lcg_recurrence ^^ 8) 364270636 = 3018209620"
    "lcg_recurrence 364270636 = 881246619"
    "map_option gridSystem (initializePuzzle ?g2) = Some (gridSystem demo_session)"
    by code_simp+
  show ?thesis
    using generation_deterministic [where ?gm1.0 = ?g1 and ?gm2.0 = ?g2 and n = 2 and d = "''medium''"
          and gm = after_ABC and s = "code_units ''TEST1234''" and v = 364270636]
      generation_deterministic [where gm = ?g2 and s = "code_units ''TEST1234''" and v = 364270636]
      h facts
    by simp
qed

lemma test1234_seed: "seedRandom (code_units ''TEST1234'') = Some 364270636"
  by code_simp

lemma test1234_shuffle:
  "shuffle_loop 15 (Some 364270636) (all_positions 4) = Some (Some 3187744337, test1234_shuffled)"
  by code_simp

lemma test1234_place:
  "place_immutable (take 4 test1234_shuffled) (Some 3187744337) (newGridSystem 4)
     = Some (Some 2034210325, test1234_placed)"
  by code_simp

lemma test1234_constraints:
  "add_constraints 2 (Some 2034210325) test1234_placed
     = Some (Some 3360208989, gridSystem test1234_session)"
  by code_simp

lemma test1234_counts:
  "prefilledCount ''medium'' 4 = 4" "constraintCount 4 = 2" "length (all_positions 4) - 1 = 15"
  "min 4 (length test1234_shuffled) = 4"
  by code_simp+

lemma test1234_constructed:
  "newGameManager 4 ''medium'' (code_units ''TEST1234'') = Some test1234_session"
proof -
  define fresh where "fresh =
     \<lparr>gridSystem = newGridSystem 4, gameState = Ready, difficulty = ''medium'',
      seed = code_units ''TEST1234'', seedValue = None,
      timer = \<lparr>startTime = None, elapsedTime = 0, isRunning = False\<rparr>,
      moveHistory = [], currentMoveIndex = - 1, initialPuzzleState = None\<rparr>"
  have f: "seed fresh = code_units ''TEST1234''" "difficulty fresh = ''medium''"
    "gridSystem fresh = newGridSystem 4" "gsize (newGridSystem 4) = 4"
    by (simp_all add: fresh_def newGridSystem_def)
  have "initializePuzzle fresh
      = Some (storeInitialPuzzleState
                (fresh\<lparr>gridSystem := gridSystem test1234_session, seedValue := Some 3360208989\<rparr>))"
    unfolding initializePuzzle_def Let_def f test1234_seed test1234_counts test1234_shuffle
      option.case prod.case test1234_place test1234_constraints ..
  also have "\<dots> = Some test1234_session"
    by (simp add: storeInitialPuzzleState_def fresh_def test1234_session_def getConstraints_def)
  finally show ?thesis
    by (simp add: newGameManager_def fresh_def)
qed

text \<open>
  C8. For size 4, seed \<open>TEST1234\<close> and difficulty \<open>medium\<close>: \<open>prefilledCount\<close> is 4 and
  \<open>constraintCount\<close> is 2; the constructor builds \<open>test1234_session\<close>, in which exactly the
  four cells (0, 0), (1, 0), (3, 1) and (3, 3) are immutable, each holding \<open>'moon'\<close>,
  and the store holds exactly two constraints; generating again with the same inputs,
  from any session, gives the same grid, constraints and snapshot.
\<close>

theorem test1234_scenario:
  "prefilledCount ''medium'' 4 = 4
   \<and> constraintCount 4 = 2
   \<and> newGameManager 4 ''medium'' (code_units ''TEST1234'') = Some test1234_session
   \<and> length (filter immutable (concat (grid (gridSystem test1234_session)))) = 4
   \<and> map (\<lambda>(r, c). cell_at (grid (gridSystem test1234_session)) r c) [(0, 0), (1, 0), (3, 1), (3, 3)]
       = replicate 4 \<lparr>val = Some ''moon'', immutable = True\<rparr>
   \<and> length (constraints (gridSystem test1234_session)) = 2
   \<and> getConstraints (gridSystem test1234_session)
       = [\<lparr>cell1 = (1, 2), cell2 = (2, 2), ctype = NotEqual\<rparr>,
          \<lparr>cell1 = (0, 1), cell2 = (0, 2), ctype = Equal\<rparr>]
   \<and> map_option gridSystem (newGame gm (Some 4) (Some ''medium'') (code_units ''TEST1234''))
       = Some (gridSystem test1234_session)
   \<and> map_option initialPuzzleState (newGame gm (Some 4) (Some ''medium'') (code_units ''TEST1234''))
       = Some (initialPuzzleState test1234_session)"
proof (intro conjI)
  show "prefilledCount ''medium'' 4 = 4" "constraintCount 4 = 2"
    by (rule test1234_counts)+
  show "newGameManager 4 ''medium'' (code_units ''TEST1234'') = Some test1234_session"
    by (rule test1234_constructed)
  show "length (filter immutable (concat (grid (gridSystem test1234_session)))) = 4"
    by code_simp
  show "map (\<lambda>(r, c). cell_at (grid (gridSystem test1234_session)) r c) [(0, 0), (1, 0), (3, 1), (3, 3)]
       = replicate 4 \<lparr>val = Some ''moon'', immutable = True\<rparr>"
    by code_simp
  show "length (constraints (gridSystem test1234_session)) = 2"
    by code_simp
  show "getConstraints (gridSystem test1234_session)
       = [\<lparr>cell1 = (1, 2), cell2 = (2, 2), ctype = NotEqual\<rparr>,
          \<lparr>cell1 = (0, 1), cell2 = (0, 2), ctype = Equal\<rparr>]"
    by code_simp
  have same: "seed (clearMoveHistory (resetTimer (gm\<lparr>gridSystem := newGridSystem 4,
                 difficulty := ''medium'', seed := code_units ''TEST1234'', gameState := Ready\<rparr>)))
              = seed \<lparr>gridSystem = newGridSystem 4, gameState = Ready, difficulty = ''medium'',
                       seed = code_units ''TEST1234'', seedValue = None,
                       timer = \<lparr>startTime = None, elapsedTime = 0, isRunning = False\<rparr>,
                       moveHistory = [], currentMoveIndex = - 1, initialPuzzleState = None\<rparr>"
    by (simp add: clearMoveHistory_def resetTimer_def)
  have n: "newGame gm (Some 4) (Some ''medium'') (code_units ''TEST1234'')
        = initializePuzzle (clearMoveHistory (resetTimer (gm\<lparr>gridSystem := newGridSystem 4,
                 difficulty := ''medium'', seed := code_units ''TEST1234'', gameState := Ready\<rparr>)))"
    by (simp add: newGame_def)
  show "map_option gridSystem (newGame gm (Some 4) (Some ''medium'') (code_units ''TEST1234''))
       = Some (gridSystem test1234_session)"
    unfolding n test1234_constructed [symmetric, THEN arg_cong [where f = "map_option gridSystem"], simplified]
      newGameManager_def
    by (rule initializePuzzle_two_runs) (simp_all add: clearMoveHistory_def resetTimer_def)
  show "map_option initialPuzzleState (newGame gm (Some 4) (Some ''medium'') (code_units ''TEST1234''))
       = Some (initialPuzzleState test1234_session)"
    unfolding n test1234_constructed [symmetric, THEN arg_cong [where f = "map_option initialPuzzleState"], simplified]
      newGameManager_def
    by (rule initializePuzzle_two_runs) (simp_all add: clearMoveHistory_def resetTimer_def)
qed

theorem test1234_scenario_witness:
  "map_option gridSystem (newGame after_ABC (Some 4) (Some ''medium'') (code_units ''TEST1234''))
     = map_option gridSystem (newGameManager 4 ''medium'' (code_units ''TEST1234''))"
  using test1234_scenario [of after_ABC] by simp

end
